(* ===== verification/Prelude.thy ===== *)
theory Prelude
  imports Main "HOL-Library.Word"
begin

text \<open>
  Shared vocabulary of the development: the byte and integer types of the Go
  package \<open>txtser\<close>, its error sentinels and run-time panics, the lemma
  collections the component theories fill, and the generic lemmas on word casts
  and lists that the reader, the writer and the codec proofs share.
\<close>

section \<open>Types of the model\<close>

text \<open>
  A Go \<open>string\<close> and a \<open>[]byte\<close> are byte sequences; an Isabelle \<open>char\<close> is an
  8-bit byte, so both are \<open>string\<close>.  Go's fixed-width integers are words of
  their width; a signed Go integer is the same word read by \<open>sint\<close>.
\<close>

type_synonym bytes = string
type_synonym u8 = "8 word"
type_synonym u16 = "16 word"
type_synonym u32 = "32 word"
type_synonym u64 = "64 word"
type_synonym i8 = "8 word"
type_synonym i16 = "16 word"
type_synonym i32 = "32 word"
type_synonym i64 = "64 word"

text \<open>
  The errors the package can return.  The first six are the package's own
  sentinels (\<open>ErrNotBoost\<close> \<dots> \<open>ErrNotADelimiter\<close>); \<open>ErrEOF\<close> and
  \<open>ErrUnexpectedEOF\<close> are \<open>io.EOF\<close> and \<open>io.ErrUnexpectedEOF\<close>;
  \<open>NumError f s e\<close> is strconv's \<open>*NumError{Func, Num, Err}\<close>, which
  \<open>ReadU64\<close>, \<open>ReadI64\<close> and \<open>ReadF64\<close> surface verbatim.
\<close>

datatype numerr = ErrSyntax | ErrRange

datatype numfn = FnParseUint | FnParseInt | FnParseFloat

datatype error =
    ErrNotBoost
  | ErrInvalidHeader
  | ErrInvalidTypeDescr
  | ErrInvalidArrayLen
  | ErrTypeNotSupported
  | ErrNotADelimiter
  | ErrEOF
  | ErrUnexpectedEOF
  | NumError numfn string numerr

text \<open>
  A Go panic is not an error value: it unwinds every caller.  The model keeps it
  apart, as the left summand of each operation that can panic.
\<close>

datatype panic =
    PanicMakeSliceLen
  | PanicUnexportedField string
  | PanicNilDeref

section \<open>Lemma collections\<close>

named_theorems rbuf_simps "equations of the reader operations, used by the decoder proofs"
named_theorems wbuf_simps "equations of the writer operations, used by the encoder proofs"

section \<open>Word casts\<close>

text \<open>
  The reader parses every integer at 64 bits and narrows it
  (\<open>uint8(r.ReadU64())\<close>, \<open>int8(r.ReadI64())\<close>); the writer widens.  Widening
  then narrowing is the identity, for the unsigned and for the signed reading.
\<close>

lemma ucast_widen_narrow [simp]:
  fixes w :: "'a::len word"
  assumes "LENGTH('a) \<le> LENGTH('b::len)"
  shows "(ucast (ucast w :: 'b word) :: 'a word) = w"
  using assms by (simp add: ucast_up_ucast_id is_up)

lemma scast_widen_narrow [simp]:
  fixes w :: "'a::len word"
  assumes "LENGTH('a) \<le> LENGTH('b::len)"
  shows "(scast (scast w :: 'b word) :: 'a word) = w"
  using assms by (simp add: scast_up_scast_id is_up)

text \<open>The bound of a 64-bit word in the form the simplifier leaves it.\<close>

lemma unat_u64_bound [simp]: "unat (w :: u64) < 18446744073709551616"
  using unsigned_less [of w] by simp

text \<open>Go's \<open>int(u)\<close> for a \<open>uint64\<close> \<open>u\<close> reinterprets the bits: values at or
  above \<open>2^63\<close> become negative.\<close>

lemma sint_u64: "sint (w :: u64) = (if uint w < 2 ^ 63 then uint w else uint w - 2 ^ 64)"
proof -
  have e: "sint w = (uint w + 2 ^ 63) mod 2 ^ 64 - 2 ^ 63"
    using int_word_sint [of "uint w", where 'a = 64] by simp
  have b: "0 \<le> uint w" "uint w < 2 ^ 64"
    using unsigned_less [of w] by simp_all
  show ?thesis
  proof (cases "uint w < 2 ^ 63")
    case True
    then show ?thesis using e b by simp
  next
    case False
    then have "(uint w + 2 ^ 63) mod 2 ^ 64 = uint w + 2 ^ 63 - 2 ^ 64"
      using b by (simp add: mod_pos_geq)
    then show ?thesis using e False by simp
  qed
qed

lemma sint_u64_neg: "sint (w :: u64) < 0 \<longleftrightarrow> 2 ^ 63 \<le> unat w"
proof -
  have "0 \<le> uint w" "uint w < 2 ^ 64" using unsigned_less [of w] by simp_all
  then show ?thesis
    by (simp add: sint_u64 unat_eq_nat_uint le_nat_iff del: nat_uint_eq)
qed

section \<open>Lists\<close>

lemma takeWhile_append_stop:
  "\<not> P c \<Longrightarrow> list_all P xs \<Longrightarrow> takeWhile P (xs @ c # ys) = xs"
  by (induction xs) auto

lemma dropWhile_append_stop:
  "\<not> P c \<Longrightarrow> list_all P xs \<Longrightarrow> dropWhile P (xs @ c # ys) = c # ys"
  by (induction xs) auto

lemma split_first_unique:
  "xs @ c # ys = xs' @ c # ys' \<Longrightarrow> c \<notin> set xs \<Longrightarrow> c \<notin> set xs' \<Longrightarrow> xs = xs' \<and> ys = ys'"
proof (induction xs arbitrary: xs')
  case Nil
  then show ?case by (cases xs') auto
next
  case (Cons x xs)
  then show ?case by (cases xs') auto
qed

lemma split_at_delim:
  "c \<in> set src \<Longrightarrow> \<exists>tok rest. src = tok @ c # rest \<and> c \<notin> set tok"
  using split_list_first by fastforce

end
