(* ===== verification/Strconv.thy ===== *)
theory Strconv
  imports Prelude
begin

text \<open>
  The parts of Go's \<open>strconv\<close> package that the reader and the writer call:
  \<open>ParseUint(s, 10, 64)\<close>, \<open>ParseInt(s, 10, 64)\<close>, \<open>FormatUint(v, 10)\<close> and
  \<open>FormatInt(v, 10)\<close>.  They are library code, modelled after the Go standard
  library's own loop (digit check, the cut-off test before the multiplication,
  the wrap-around test after the addition), so that the reader's error
  behaviour on malformed and out-of-range tokens is the library's.  Floating
  point conversion is not modelled here: the float operations of the reader and
  writer take it as a parameter (theory \<open>Value\<close>).
\<close>

section \<open>Decimal digits\<close>

definition is_digit :: "char \<Rightarrow> bool" where
  "is_digit c \<longleftrightarrow> 48 \<le> (of_char c :: nat) \<and> (of_char c :: nat) \<le> 57"

definition digit_val :: "char \<Rightarrow> nat" where
  "digit_val c = of_char c - 48"

definition digit_char :: "nat \<Rightarrow> char" where
  "digit_char d = char_of (48 + d)"

text \<open>The value of a digit string, read from an accumulator (Horner's rule).\<close>

fun dec_from :: "nat \<Rightarrow> string \<Rightarrow> nat" where
  "dec_from a [] = a"
| "dec_from a (c # cs) = dec_from (10 * a + digit_val c) cs"

section \<open>ParseUint and ParseInt\<close>

text \<open>
  \<open>strconv.ParseUint\<close> with base 10 and bit size 64.  The loop keeps the value
  as a \<open>uint64\<close>: a value at or above the cut-off \<open>maxUint64/10 + 1\<close> would
  overflow when multiplied by ten, and an addition that wraps gives a smaller
  word.  A syntax error returns 0, a range error the maximal value, as in Go.
  (Go's further test \<open>n1 > maxVal\<close> cannot hold at 64 bits and is omitted.)
\<close>

definition uint_cutoff :: u64 where
  "uint_cutoff = 1844674407370955162"

fun parse_uint_loop :: "u64 \<Rightarrow> string \<Rightarrow> u64 \<times> numerr option" where
  "parse_uint_loop n [] = (n, None)"
| "parse_uint_loop n (c # cs) =
     (if \<not> is_digit c then (0, Some ErrSyntax)
      else if uint_cutoff \<le> n then (- 1, Some ErrRange)
      else (let n' = n * 10; n1 = n' + word_of_nat (digit_val c)
            in if n1 < n' then (- 1, Some ErrRange) else parse_uint_loop n1 cs))"

definition ParseUint :: "string \<Rightarrow> u64 \<times> error option" where
  "ParseUint s =
     (if s = [] then (0, Some (NumError FnParseUint s ErrSyntax))
      else (case parse_uint_loop 0 s of
              (v, None) \<Rightarrow> (v, None)
            | (v, Some e) \<Rightarrow> (v, Some (NumError FnParseUint s e))))"

text \<open>
  \<open>strconv.ParseInt\<close> with base 10 and bit size 64: an optional sign, then
  \<open>ParseUint\<close> on the rest; a syntax error is re-labelled with \<open>ParseInt\<close> and
  the whole input, a magnitude beyond the signed range is a range error.  The
  negation of the magnitude is the two's complement negation of the word, so
  \<open>-9223372036854775808\<close> is read correctly.
\<close>

definition ParseInt :: "string \<Rightarrow> i64 \<times> error option" where
  "ParseInt s0 =
     (if s0 = [] then (0, Some (NumError FnParseInt s0 ErrSyntax))
      else
        (let neg = (hd s0 = CHR ''-'');
             s = (if hd s0 = CHR ''+'' \<or> hd s0 = CHR ''-'' then tl s0 else s0)
         in case ParseUint s of
              (_, Some (NumError _ _ ErrSyntax)) \<Rightarrow> (0, Some (NumError FnParseInt s0 ErrSyntax))
            | (un, _) \<Rightarrow>
                if \<not> neg \<and> 2 ^ 63 \<le> un then (2 ^ 63 - 1, Some (NumError FnParseInt s0 ErrRange))
                else if neg \<and> 2 ^ 63 < un then (- (2 ^ 63), Some (NumError FnParseInt s0 ErrRange))
                else (if neg then - un else un, None)))"

section \<open>FormatUint and FormatInt\<close>

fun fmt_nat :: "nat \<Rightarrow> string" where
  "fmt_nat n = (if n < 10 then [digit_char n] else fmt_nat (n div 10) @ [digit_char (n mod 10)])"

declare fmt_nat.simps [simp del]

definition FormatUint :: "u64 \<Rightarrow> string" where
  "FormatUint v = fmt_nat (unat v)"

definition FormatInt :: "i64 \<Rightarrow> string" where
  "FormatInt v =
     (if sint v < 0 then CHR ''-'' # fmt_nat (nat (- sint v)) else fmt_nat (nat (sint v)))"

section \<open>Properties\<close>

lemma is_digit_val: "is_digit c \<Longrightarrow> digit_val c < 10"
  unfolding is_digit_def digit_val_def by arith

lemma dec_from_ge: "a \<le> dec_from a cs"
proof (induction cs arbitrary: a)
  case Nil then show ?case by simp
next
  case (Cons c cs)
  have "a \<le> 10 * a + digit_val c" by simp
  also have "\<dots> \<le> dec_from (10 * a + digit_val c) cs" by (rule Cons.IH)
  finally show ?case by simp
qed

lemma mul10_add_digit:
  fixes n :: u64
  assumes n: "unat n < 1844674407370955162" and d: "d < 10"
  shows "unat (n * 10) = 10 * unat n"
    and "n * 10 + word_of_nat d < n * 10 \<longleftrightarrow> 2 ^ 64 \<le> 10 * unat n + d"
    and "10 * unat n + d < 2 ^ 64 \<Longrightarrow> unat (n * 10 + word_of_nat d) = 10 * unat n + d"
proof -
  show m: "unat (n * 10) = 10 * unat n"
    using n by (simp add: unat_word_ariths)
  have ud: "unat (word_of_nat d :: u64) = d"
    using d by (simp add: unat_of_nat)
  have s: "unat (n * 10 + word_of_nat d) = (10 * unat n + d) mod 2 ^ 64"
    using m ud by (simp add: unat_word_ariths)
  show "10 * unat n + d < 2 ^ 64 \<Longrightarrow> unat (n * 10 + word_of_nat d) = 10 * unat n + d"
    using s by simp
  have lt64: "10 * unat n + d < 2 * 2 ^ 64"
    using n d by simp
  show "n * 10 + word_of_nat d < n * 10 \<longleftrightarrow> 2 ^ 64 \<le> 10 * unat n + d"
  proof (cases "10 * unat n + d < 2 ^ 64")
    case True
    then show ?thesis using s m by (simp add: word_less_nat_alt)
  next
    case False
    then have "(10 * unat n + d) mod 2 ^ 64 = 10 * unat n + d - 2 ^ 64"
      using lt64 by (simp add: le_mod_geq not_less)
    then show ?thesis using s m False d by (simp add: word_less_nat_alt)
  qed
qed

lemma parse_uint_loop_digits:
  "list_all is_digit cs \<Longrightarrow>
   parse_uint_loop n cs =
     (if dec_from (unat n) cs < 2 ^ 64 then (word_of_nat (dec_from (unat n) cs), None)
      else (- 1, Some ErrRange))"
proof (induction cs arbitrary: n)
  case Nil
  then show ?case by simp
next
  case (Cons c cs)
  then have dc: "is_digit c" and ds: "list_all is_digit cs" by simp_all
  let ?d = "digit_val c"
  have d10: "?d < 10" using dc by (rule is_digit_val)
  show ?case
  proof (cases "uint_cutoff \<le> n")
    case True
    then have "unat uint_cutoff \<le> unat n" by (simp add: word_le_nat_alt)
    then have "(2::nat) ^ 64 \<le> 10 * unat n + ?d" by (simp add: uint_cutoff_def)
    also have "\<dots> \<le> dec_from (10 * unat n + ?d) cs" by (rule dec_from_ge)
    finally show ?thesis using True dc by simp
  next
    case False
    then have lt: "unat n < 1844674407370955162"
      by (simp add: uint_cutoff_def word_le_nat_alt not_le)
    note step = mul10_add_digit [OF lt d10]
    show ?thesis
    proof (cases "2 ^ 64 \<le> 10 * unat n + ?d")
      case True
      have "(2::nat) ^ 64 \<le> dec_from (10 * unat n + ?d) cs"
        using True dec_from_ge order_trans by blast
      then show ?thesis using False True dc step(2) by (simp add: Let_def)
    next
      case nov: False
      then have u1: "unat (n * 10 + word_of_nat ?d) = 10 * unat n + ?d"
        using step(3) by simp
      have "parse_uint_loop n (c # cs) = parse_uint_loop (n * 10 + word_of_nat ?d) cs"
        using False nov dc step(2) by (simp add: Let_def)
      also have "\<dots> = (if dec_from (10 * unat n + ?d) cs < 2 ^ 64
                        then (word_of_nat (dec_from (10 * unat n + ?d) cs), None)
                        else (- 1, Some ErrRange))"
        using Cons.IH [OF ds, of "n * 10 + word_of_nat ?d"] u1 by simp
      finally show ?thesis by simp
    qed
  qed
qed

lemma parse_uint_loop_nondigit:
  "\<not> list_all is_digit cs \<Longrightarrow> snd (parse_uint_loop n cs) \<noteq> None"
proof (induction n cs rule: parse_uint_loop.induct)
  case (1 n)
  then show ?case by simp
next
  case (2 n c cs)
  then show ?case by (auto simp: Let_def)
qed


lemma digit_char_props:
  assumes "d < 10"
  shows "is_digit (digit_char d)" and "digit_val (digit_char d) = d"
  using assms by (simp_all add: is_digit_def digit_val_def digit_char_def)

lemma fmt_nat_digits: "list_all is_digit (fmt_nat n)"
proof (induction n rule: fmt_nat.induct)
  case (1 n)
  then show ?case by (subst fmt_nat.simps) (simp add: digit_char_props)
qed

lemma fmt_nat_nonempty: "fmt_nat n \<noteq> []"
  by (subst fmt_nat.simps) simp

lemma dec_from_append: "dec_from a (xs @ ys) = dec_from (dec_from a xs) ys"
  by (induction xs arbitrary: a) auto

lemma dec_from_fmt_nat: "dec_from 0 (fmt_nat n) = n"
proof (induction n rule: fmt_nat.induct)
  case (1 n)
  show ?case
  proof (cases "n < 10")
    case True
    then show ?thesis by (subst fmt_nat.simps) (simp add: digit_char_props)
  next
    case False
    with "1.IH" have "dec_from 0 (fmt_nat (n div 10)) = n div 10" by simp
    with False show ?thesis
      by (subst fmt_nat.simps) (simp add: dec_from_append digit_char_props)
  qed
qed

lemma ParseUint_digits:
  assumes "s \<noteq> []" and "list_all is_digit s" and "dec_from 0 s < 2 ^ 64"
  shows "ParseUint s = (word_of_nat (dec_from 0 s), None)"
  using assms by (simp add: ParseUint_def parse_uint_loop_digits)

lemma ParseUint_fmt_nat:
  "n < 2 ^ 64 \<Longrightarrow> ParseUint (fmt_nat n) = (word_of_nat n, None)"
  using ParseUint_digits [of "fmt_nat n"]
  by (simp add: fmt_nat_nonempty fmt_nat_digits dec_from_fmt_nat)

lemma ParseUint_FormatUint: "ParseUint (FormatUint w) = (w, None)"
  by (simp add: FormatUint_def ParseUint_fmt_nat)

lemma hd_fmt_nat_digit: "is_digit (hd (fmt_nat n))"
  using fmt_nat_digits [of n] fmt_nat_nonempty [of n]
  by (cases "fmt_nat n") simp_all

lemma sign_not_digit: "\<not> is_digit (CHR ''-'')" "\<not> is_digit (CHR ''+'')" "\<not> is_digit (CHR '' '')"
  by (simp_all add: is_digit_def)

lemma ParseInt_FormatInt: "ParseInt (FormatInt w) = (w, None)"
proof (cases "sint w < 0")
  case True
  let ?m = "nat (- sint w)"
  have m: "?m \<le> 2 ^ 63"
    using sint_ge [of w] by simp
  then have um: "unat (word_of_nat ?m :: u64) = ?m"
    by (simp add: unat_of_nat)
  have neg: "- (word_of_nat ?m :: u64) = w"
    using True by simp
  have "ParseUint (fmt_nat ?m) = (word_of_nat ?m, None)"
    using m by (simp add: ParseUint_fmt_nat)
  then show ?thesis
    using True um m neg by (simp add: FormatInt_def ParseInt_def word_less_nat_alt)
next
  case False
  let ?m = "nat (sint w)"
  have m: "?m < 2 ^ 63"
    using sint_lt [of w] False by simp
  then have um: "unat (word_of_nat ?m :: u64) = ?m"
    by (simp add: unat_of_nat)
  have pos: "(word_of_nat ?m :: u64) = w"
    using False by simp
  have hd: "hd (fmt_nat ?m) \<noteq> CHR ''-'' \<and> hd (fmt_nat ?m) \<noteq> CHR ''+''"
    using hd_fmt_nat_digit [of ?m] sign_not_digit by auto
  have "ParseUint (fmt_nat ?m) = (word_of_nat ?m, None)"
    using m by (simp add: ParseUint_fmt_nat)
  then show ?thesis
    using False um m pos hd fmt_nat_nonempty [of ?m]
    by (simp add: FormatInt_def ParseInt_def word_le_nat_alt)
qed


text \<open>Formatted numbers are non-empty and hold no space, so the delimiter that
  follows them ends the token.\<close>

lemma FormatUint_token: "FormatUint w \<noteq> [] \<and> CHR '' '' \<notin> set (FormatUint w)"
proof -
  have "list_all is_digit (FormatUint w)"
    by (simp add: FormatUint_def fmt_nat_digits)
  then have "CHR '' '' \<notin> set (FormatUint w)"
    using sign_not_digit(3) by (auto simp: list_all_iff)
  then show ?thesis by (simp add: FormatUint_def fmt_nat_nonempty)
qed

lemma FormatInt_token: "FormatInt w \<noteq> [] \<and> CHR '' '' \<notin> set (FormatInt w)"
proof -
  have "list_all is_digit (fmt_nat n)" for n
    by (rule fmt_nat_digits)
  then have "CHR '' '' \<notin> set (fmt_nat n)" for n
    using sign_not_digit(3) by (fastforce simp: list_all_iff)
  then show ?thesis by (simp add: FormatInt_def fmt_nat_nonempty)
qed

lemma ParseUint_ok_iff:
  "ParseUint s = (v, None) \<longleftrightarrow>
   s \<noteq> [] \<and> list_all is_digit s \<and> dec_from 0 s < 2 ^ 64 \<and> v = word_of_nat (dec_from 0 s)"
proof (cases "s \<noteq> [] \<and> list_all is_digit s")
  case True
  then show ?thesis by (auto simp: ParseUint_def parse_uint_loop_digits)
next
  case False
  then have "snd (ParseUint s) \<noteq> None"
    using parse_uint_loop_nondigit [of s 0]
    by (auto simp: ParseUint_def split: prod.split option.split)
  with False show ?thesis by auto
qed

text \<open>The ten digit characters, for evaluating formatted numbers.\<close>

lemma digit_char_simps [simp]:
  "digit_char 0 = CHR ''0''" "digit_char 1 = CHR ''1''" "digit_char 2 = CHR ''2''"
  "digit_char 3 = CHR ''3''" "digit_char 4 = CHR ''4''" "digit_char 5 = CHR ''5''"
  "digit_char 6 = CHR ''6''" "digit_char 7 = CHR ''7''" "digit_char 8 = CHR ''8''"
  "digit_char 9 = CHR ''9''"
  unfolding digit_char_def by code_simp+
end
