(* ===== verification/Wire.thy ===== *)
theory Wire
  imports Prelude
begin

text \<open>
  The wire-level records the reader, the writer and the codec share: the
  architecture profile, the archive header and the per-type descriptor.  Their
  Go declarations (\<open>Arch\<close>, \<open>Header\<close>, \<open>TypeDescr\<close>, the magic signature) are not
  among the repository's sources; they are modelled from the specification
  (sections 3, 4.1-4.3).
\<close>

section \<open>Architecture profile\<close>

text \<open>
  \<open>Arch\<close> is an integer type in Go whose value 32 selects 32-bit length fields
  (\<open>case 32\<close> in \<open>readLen\<close>); the model names the four profiles of the
  specification.  \<open>ArchDefault\<close> is the zero value, which a fresh \<open>RBuffer\<close>
  carries.
\<close>

datatype arch = ArchDefault | ArchHW | Arch32 | Arch64

section \<open>Header\<close>

text \<open>
  The header follows the magic signature: a version and a flag word, read and
  written as two numeric tokens.  The zero header is the sentinel \<open>zeroHdr\<close>.
\<close>

record header =
  hdr_Version :: u16
  hdr_Flags :: u64

definition zeroHdr :: header where
  "zeroHdr = \<lparr>hdr_Version = 0, hdr_Flags = 0\<rparr>"

text \<open>
  \<open>Arch.Header()\<close>: the default header of a profile.  The specification gives
  no values; the model takes Boost's text archive library version 17 and no
  flags for every profile.  No theorem depends on these numbers beyond the
  default header being non-zero.
\<close>

definition arch_Header :: "arch \<Rightarrow> header" where
  "arch_Header a = \<lparr>hdr_Version = 17, hdr_Flags = 0\<rparr>"

definition magicHeaderSignature :: string where
  "magicHeaderSignature = ''serialization::archive''"

section \<open>Type descriptor\<close>

text \<open>A type descriptor is a version and a class-info flag byte, in that order.\<close>

record TypeDescr =
  td_Version :: u32
  td_Flags :: u8

end
