(* ===== verification/Value.thy ===== *)
theory Value
  imports Prelude
begin

text \<open>
  The values the encoder and decoder dispatch on.  Go discovers a value's shape
  by reflection (\<open>reflect.Value.Kind\<close>); the model gives each value an explicit
  shape: one constructor per kind of the dispatch in \<open>Encoder.Encode\<close>
  (\<open>src/txtser/encoder.go\<close>), the composite ones carrying what reflection
  would read from their type (struct name and field names, element, key and
  value types).  The type of a value, \<open>type_of\<close>, is the registry key
  (\<open>reflect.Type\<close>) of the type-descriptor cache.
\<close>

section \<open>Types and values\<close>

datatype rtype =
    TBool | TInt8 | TInt16 | TInt32 | TInt64
  | TUint8 | TUint16 | TUint32 | TUint64
  | TFloat32 | TFloat64 | TComplex64 | TComplex128 | TString
  | TStruct string "(string \<times> rtype) list"
  | TSlice rtype
  | TArray nat rtype
  | TMap rtype rtype
  | TPtr rtype
  | TCustom string "rtype option" "rtype list"
  | TOther string

text \<open>
  \<open>TCustom n d fs\<close> is a named type implementing \<open>Marshaler\<close> and
  \<open>Unmarshaler\<close> that writes the type descriptor of \<open>d\<close> (if any) and then its
  fields of the primitive types \<open>fs\<close>, as \<open>manimal\<close> of the tests does.
  \<open>TOther k\<close> is any kind outside the dispatch (\<open>int\<close>, \<open>uint\<close>,
  \<open>uintptr\<close>, \<open>chan\<close>, \<open>func\<close>, \<open>interface\<close>, \<open>unsafe.Pointer\<close>).
  Floating-point values are carried as their IEEE-754 bit patterns.
\<close>

datatype val =
    VBool bool | VInt8 i8 | VInt16 i16 | VInt32 i32 | VInt64 i64
  | VUint8 u8 | VUint16 u16 | VUint32 u32 | VUint64 u64
  | VFloat32 u32 | VFloat64 u64 | VComplex64 u32 u32 | VComplex128 u64 u64
  | VString string
  | VStruct string "(string \<times> val) list"
  | VSlice rtype "val list"
  | VArray rtype "val list"
  | VMap rtype rtype "(val \<times> val) list"
  | VPtr rtype "val option"
  | VCustom string "rtype option" "val list"
  | VOther string
  | VNil

text \<open>
  \<open>VMap kt vt kvs\<close> lists the entries in the order \<open>reflect.Value.MapKeys\<close>
  returns them; Go leaves that order unspecified, so every theorem about maps
  holds for every order of the list.  \<open>VPtr t None\<close> is a nil pointer,
  \<open>VNil\<close> the untyped nil interface.
\<close>

primrec type_of :: "val \<Rightarrow> rtype" where
  "type_of (VBool b) = TBool"
| "type_of (VInt8 x) = TInt8"
| "type_of (VInt16 x) = TInt16"
| "type_of (VInt32 x) = TInt32"
| "type_of (VInt64 x) = TInt64"
| "type_of (VUint8 x) = TUint8"
| "type_of (VUint16 x) = TUint16"
| "type_of (VUint32 x) = TUint32"
| "type_of (VUint64 x) = TUint64"
| "type_of (VFloat32 x) = TFloat32"
| "type_of (VFloat64 x) = TFloat64"
| "type_of (VComplex64 x y) = TComplex64"
| "type_of (VComplex128 x y) = TComplex128"
| "type_of (VString s) = TString"
| "type_of (VStruct n fs) = TStruct n (map (map_prod id type_of) fs)"
| "type_of (VSlice t vs) = TSlice t"
| "type_of (VArray t vs) = TArray (length vs) t"
| "type_of (VMap kt vt kvs) = TMap kt vt"
| "type_of (VPtr t p) = TPtr t"
| "type_of (VCustom n d vs) = TCustom n d (map type_of vs)"
| "type_of (VOther k) = TOther k"
| "type_of VNil = TOther ''nil''"

section \<open>Shape predicates\<close>

text \<open>
  \<open>isCxxBoostBuiltin\<close> (not among the sources; from the specification,
  section 4.5): the element kinds for which a slice carries no reserved 32-bit
  field, the primitive scalar kinds and \<open>string\<close>.
\<close>

fun isCxxBoostBuiltin :: "rtype \<Rightarrow> bool" where
  "isCxxBoostBuiltin TBool = True"
| "isCxxBoostBuiltin TInt8 = True"
| "isCxxBoostBuiltin TInt16 = True"
| "isCxxBoostBuiltin TInt32 = True"
| "isCxxBoostBuiltin TInt64 = True"
| "isCxxBoostBuiltin TUint8 = True"
| "isCxxBoostBuiltin TUint16 = True"
| "isCxxBoostBuiltin TUint32 = True"
| "isCxxBoostBuiltin TUint64 = True"
| "isCxxBoostBuiltin TFloat32 = True"
| "isCxxBoostBuiltin TFloat64 = True"
| "isCxxBoostBuiltin TComplex64 = True"
| "isCxxBoostBuiltin TComplex128 = True"
| "isCxxBoostBuiltin TString = True"
| "isCxxBoostBuiltin _ = False"

text \<open>
  A struct field is exported when its name starts with an upper-case letter;
  \<open>reflect.Value.Interface\<close> panics on any other field.  (Go also accepts
  non-ASCII upper-case letters; the model's field names are ASCII.)
\<close>

definition exported :: "string \<Rightarrow> bool" where
  "exported f = (case f of [] \<Rightarrow> False | c # _ \<Rightarrow> 65 \<le> (of_char c :: nat) \<and> (of_char c :: nat) \<le> 90)"

text \<open>
  \<open>reflect.Indirect(reflect.ValueOf(v))\<close>: one level of pointer is followed; a
  nil pointer gives the invalid value, whose kind no case of the dispatch names.
\<close>

fun indirect :: "val \<Rightarrow> val" where
  "indirect (VPtr t (Some x)) = x"
| "indirect (VPtr t None) = VNil"
| "indirect v = v"

section \<open>Floating-point conversions\<close>

text \<open>
  The decimal conversions of IEEE-754 values belong to Go's \<open>strconv\<close>
  (\<open>FormatFloat\<close>, \<open>ParseFloat\<close>) and to the language's \<open>float32\<close> and
  \<open>float64\<close> conversions.  They are not modelled: the reader, the writer and
  the codec take them as a record of functions on bit patterns, and the
  round-trip theorems assume of them only what they need
  (\<open>ParseFloat(FormatFloat(x)) = x\<close> on the values written).
\<close>

record float_codec =
  FormatFloat64 :: "u64 \<Rightarrow> string"
  FormatFloat32 :: "u32 \<Rightarrow> string"
  ParseFloat64 :: "string \<Rightarrow> u64 \<times> numerr option"
  Float64to32 :: "u64 \<Rightarrow> u32"

section \<open>Lemmas\<close>

lemma size_indirect: "size (indirect v) \<le> size v"
  by (cases v rule: indirect.cases) auto

end
