(* ===== verification/Format.thy ===== *)
theory Format
  imports Strconv Wire Value
begin

text \<open>
  The archive format as the specification states it (sections 4.4, 4.5 and 6),
  as functions from values to bytes: the abstract specification the encoder
  refines and the decoder inverts.  A numeric token is its decimal text and one
  space; a string is its length token, its bytes and one space; a composite value
  is its type descriptor (at the first occurrence of its type in the stream
  only), its length and reserved fields, and its parts.  \<open>wire\<close> threads the set
  of types whose descriptor is already in the stream.
\<close>

section \<open>Tokens\<close>

definition delimited :: "string \<Rightarrow> bytes" where
  "delimited s = s @ [CHR '' '']"

definition u64_tok :: "u64 \<Rightarrow> bytes" where
  "u64_tok v = delimited (FormatUint v)"

definition i64_tok :: "i64 \<Rightarrow> bytes" where
  "i64_tok v = delimited (FormatInt v)"

text \<open>A length field: a 32-bit token under the 32-bit profile, a 64-bit one otherwise.\<close>

definition len_tok :: "arch \<Rightarrow> nat \<Rightarrow> bytes" where
  "len_tok a n = u64_tok (if a = Arch32 then ucast (word_of_nat n :: u32) else word_of_nat n)"

definition str_bytes :: "arch \<Rightarrow> string \<Rightarrow> bytes" where
  "str_bytes a s = len_tok a (length s) @ s @ [CHR '' '']"

definition signature_bytes :: bytes where
  "signature_bytes = FormatUint 22 @ CHR '' '' # magicHeaderSignature @ [CHR '' '']"

definition header_bytes :: "header \<Rightarrow> bytes" where
  "header_bytes h = u64_tok (ucast (hdr_Version h)) @ u64_tok (hdr_Flags h)"

definition td_bytes :: "TypeDescr \<Rightarrow> bytes" where
  "td_bytes d = u64_tok (ucast (td_Version d)) @ u64_tok (ucast (td_Flags d))"

text \<open>The descriptor the writer emits; the specification fixes no values.\<close>

definition defaultTypeDescr :: TypeDescr where
  "defaultTypeDescr = \<lparr>td_Version = 0, td_Flags = 0\<rparr>"

definition descr :: "rtype set \<Rightarrow> rtype \<Rightarrow> bytes \<times> rtype set" where
  "descr T t = (if t \<in> T then ([], T) else (td_bytes defaultTypeDescr, insert t T))"

section \<open>Values\<close>

fun prim_bytes :: "float_codec \<Rightarrow> arch \<Rightarrow> val \<Rightarrow> bytes" where
  "prim_bytes fc a (VBool b) = u64_tok (if b then 1 else 0)"
| "prim_bytes fc a (VInt8 x) = i64_tok (scast x)"
| "prim_bytes fc a (VInt16 x) = i64_tok (scast x)"
| "prim_bytes fc a (VInt32 x) = i64_tok (scast x)"
| "prim_bytes fc a (VInt64 x) = i64_tok x"
| "prim_bytes fc a (VUint8 x) = u64_tok (ucast x)"
| "prim_bytes fc a (VUint16 x) = u64_tok (ucast x)"
| "prim_bytes fc a (VUint32 x) = u64_tok (ucast x)"
| "prim_bytes fc a (VUint64 x) = u64_tok x"
| "prim_bytes fc a (VFloat32 x) = delimited (FormatFloat32 fc x)"
| "prim_bytes fc a (VFloat64 x) = delimited (FormatFloat64 fc x)"
| "prim_bytes fc a (VComplex64 x y) = delimited (FormatFloat32 fc x) @ delimited (FormatFloat32 fc y)"
| "prim_bytes fc a (VComplex128 x y) = delimited (FormatFloat64 fc x) @ delimited (FormatFloat64 fc y)"
| "prim_bytes fc a (VString s) = str_bytes a s"
| "prim_bytes fc a _ = []"

fun is_prim :: "val \<Rightarrow> bool" where
  "is_prim (VStruct n fs) = False"
| "is_prim (VSlice t vs) = False"
| "is_prim (VArray t vs) = False"
| "is_prim (VMap kt vt kvs) = False"
| "is_prim (VPtr t p) = False"
| "is_prim (VCustom n d fs) = False"
| "is_prim (VOther k) = False"
| "is_prim VNil = False"
| "is_prim _ = True"

fun is_ptr :: "val \<Rightarrow> bool" where
  "is_ptr (VPtr t p) = True"
| "is_ptr _ = False"

text \<open>
  The values with an encoding: every part of a supported shape, every struct
  field exported, pointers followed one level only, and a custom value's fields
  primitive.
\<close>

fun encodable :: "val \<Rightarrow> bool" where
  "encodable (VStruct n fs) = (\<forall>(f, v) \<in> set fs. exported f \<and> encodable v)"
| "encodable (VSlice t vs) = (\<forall>v \<in> set vs. encodable v)"
| "encodable (VArray t vs) = (\<forall>v \<in> set vs. encodable v)"
| "encodable (VMap kt vt kvs) = (\<forall>(k, v) \<in> set kvs. encodable k \<and> encodable v)"
| "encodable (VPtr t (Some x)) = (\<not> is_ptr x \<and> encodable x)"
| "encodable (VPtr t None) = False"
| "encodable (VCustom n d fs) = (\<forall>v \<in> set fs. is_prim v)"
| "encodable (VOther k) = False"
| "encodable VNil = False"
| "encodable _ = True"

function (sequential) wire :: "float_codec \<Rightarrow> arch \<Rightarrow> rtype set \<Rightarrow> val \<Rightarrow> bytes \<times> rtype set"
and wire_fields :: "float_codec \<Rightarrow> arch \<Rightarrow> rtype set \<Rightarrow> (string \<times> val) list \<Rightarrow> bytes \<times> rtype set"
and wire_list :: "float_codec \<Rightarrow> arch \<Rightarrow> rtype set \<Rightarrow> val list \<Rightarrow> bytes \<times> rtype set"
and wire_entries :: "float_codec \<Rightarrow> arch \<Rightarrow> rtype set \<Rightarrow> (val \<times> val) list \<Rightarrow> bytes \<times> rtype set" where
  "wire fc a T (VStruct n fs) =
     (case descr T (type_of (VStruct n fs)) of
        (d, T) \<Rightarrow> (case wire_fields fc a T fs of (b, T) \<Rightarrow> (d @ b, T)))"
| "wire fc a T (VSlice et vs) =
     (case descr T (TSlice et) of
        (d, T) \<Rightarrow> (case wire_list fc a T vs of
                     (b, T) \<Rightarrow> (d @ len_tok a (length vs) @
                                  (if isCxxBoostBuiltin et then [] else u64_tok 0) @ b, T)))"
| "wire fc a T (VArray et vs) =
     (case descr T (TArray (length vs) et) of
        (d, T) \<Rightarrow> (case wire_list fc a T vs of (b, T) \<Rightarrow> (d @ len_tok a (length vs) @ b, T)))"
| "wire fc a T (VMap kt vt kvs) =
     (case descr T (TMap kt vt) of
        (d, T) \<Rightarrow> (case wire_entries fc a T kvs of
                     (b, T) \<Rightarrow> (d @ len_tok a (length kvs) @ u64_tok 0 @ u64_tok 0 @ b, T)))"
| "wire fc a T (VPtr t (Some x)) = wire fc a T x"
| "wire fc a T (VCustom n d fs) =
     (case (case d of None \<Rightarrow> ([], T) | Some t \<Rightarrow> descr T t) of
        (b, T) \<Rightarrow> (b @ concat (map (prim_bytes fc a) fs), T))"
| "wire fc a T v = (prim_bytes fc a v, T)"
| "wire_fields fc a T [] = ([], T)"
| "wire_fields fc a T ((f, v) # fs) =
     (case wire fc a T v of (b, T) \<Rightarrow> (case wire_fields fc a T fs of (b', T) \<Rightarrow> (b @ b', T)))"
| "wire_list fc a T [] = ([], T)"
| "wire_list fc a T (v # vs) =
     (case wire fc a T v of (b, T) \<Rightarrow> (case wire_list fc a T vs of (b', T) \<Rightarrow> (b @ b', T)))"
| "wire_entries fc a T [] = ([], T)"
| "wire_entries fc a T ((k, v) # kvs) =
     (case wire fc a T k of
        (b, T) \<Rightarrow> (case wire fc a T v of
                     (b', T) \<Rightarrow> (case wire_entries fc a T kvs of (b'', T) \<Rightarrow> (b @ b' @ b'', T))))"
  by pat_completeness auto
termination
  by (relation "measure (\<lambda>x. case x of
        Inl (Inl (_, _, _, v)) \<Rightarrow> 2 * size v + 1
      | Inl (Inr (_, _, _, fs)) \<Rightarrow> 2 * size (VStruct [] fs)
      | Inr (Inl (_, _, _, vs)) \<Rightarrow> 2 * size (VSlice TBool vs)
      | Inr (Inr (_, _, _, kvs)) \<Rightarrow> 2 * size (VMap TBool TBool kvs))") auto

text \<open>
  The composite shapes, whose image starts with the descriptor of their type,
  and the values whose every length fits in 32 bits.
\<close>

fun composite :: "val \<Rightarrow> bool" where
  "composite (VStruct n fs) = True"
| "composite (VSlice t vs) = True"
| "composite (VArray t vs) = True"
| "composite (VMap kt vt kvs) = True"
| "composite _ = False"

fun lens_fit :: "val \<Rightarrow> bool" where
  "lens_fit (VString s) = (length s < 2 ^ 32)"
| "lens_fit (VStruct n fs) = (\<forall>(f, v) \<in> set fs. lens_fit v)"
| "lens_fit (VSlice t vs) = (length vs < 2 ^ 32 \<and> (\<forall>v \<in> set vs. lens_fit v))"
| "lens_fit (VArray t vs) = (length vs < 2 ^ 32 \<and> (\<forall>v \<in> set vs. lens_fit v))"
| "lens_fit (VMap kt vt kvs) = (length kvs < 2 ^ 32 \<and> (\<forall>(k, v) \<in> set kvs. lens_fit k \<and> lens_fit v))"
| "lens_fit (VPtr t (Some x)) = lens_fit x"
| "lens_fit (VCustom n d fs) = (\<forall>v \<in> set fs. lens_fit v)"
| "lens_fit _ = True"

text \<open>
  An image function is monotone at \<open>T\<close> when starting from more described
  types yields no fewer described types and no more bytes: descriptor elision
  only ever shortens the stream.
\<close>

definition img_mono :: "(rtype set \<Rightarrow> bytes \<times> rtype set) \<Rightarrow> rtype set \<Rightarrow> bool" where
  "img_mono f T \<longleftrightarrow>
     (\<forall>T'. T \<subseteq> T' \<longrightarrow> snd (f T) \<subseteq> snd (f T') \<and> length (fst (f T')) \<le> length (fst (f T)))"

section \<open>Lemmas on the format\<close>

lemma descr_mono: "img_mono (\<lambda>T. descr T t) T"
  by (auto simp: img_mono_def descr_def)

lemma wire_grows:
  "T \<subseteq> snd (wire fc a T v)"
  "T \<subseteq> snd (wire_fields fc a T fs)"
  "T \<subseteq> snd (wire_list fc a T vs)"
  "T \<subseteq> snd (wire_entries fc a T kvs)"
  by (induction fc a T v and fc a T fs and fc a T vs and fc a T kvs
      rule: wire_wire_fields_wire_list_wire_entries.induct)
     (fastforce simp: descr_def split: prod.split option.split if_splits)+

lemma seq_mono:
  assumes f: "img_mono f T" and g: "\<And>x y. (x, y) = f T \<Longrightarrow> img_mono g y"
  shows "img_mono (\<lambda>T. case f T of (b, U) \<Rightarrow> case g U of (c, U) \<Rightarrow> (b @ m @ c, U)) T"
  unfolding img_mono_def
proof (intro allI impI)
  fix T' assume "T \<subseteq> T'"
  obtain b U where bU: "f T = (b, U)" by fastforce
  obtain b' U' where bU': "f T' = (b', U')" by fastforce
  have "snd (f T) \<subseteq> snd (f T') \<and> length (fst (f T')) \<le> length (fst (f T))"
    using f \<open>T \<subseteq> T'\<close> unfolding img_mono_def by blast
  then have "U \<subseteq> U'" "length b' \<le> length b"
    using bU bU' by simp_all
  with g [OF bU [symmetric]] bU bU'
  show "snd (case f T of (b, U) \<Rightarrow> case g U of (c, U) \<Rightarrow> (b @ m @ c, U))
          \<subseteq> snd (case f T' of (b, U) \<Rightarrow> case g U of (c, U) \<Rightarrow> (b @ m @ c, U)) \<and>
        length (fst (case f T' of (b, U) \<Rightarrow> case g U of (c, U) \<Rightarrow> (b @ m @ c, U)))
          \<le> length (fst (case f T of (b, U) \<Rightarrow> case g U of (c, U) \<Rightarrow> (b @ m @ c, U)))"
    by (auto simp: img_mono_def split_def dest: spec [of _ U'])
qed

lemmas seq_mono0 = seq_mono [where m = "[]", simplified]

lemma wire_mono:
  "img_mono (\<lambda>T. wire fc a T v) T"
  "img_mono (\<lambda>T. wire_fields fc a T fs) T"
  "img_mono (\<lambda>T. wire_list fc a T vs) T"
  "img_mono (\<lambda>T. wire_entries fc a T kvs) T"
proof (induction fc a T v and fc a T fs and fc a T vs and fc a T kvs
       rule: wire_wire_fields_wire_list_wire_entries.induct)
  case (1 fc a T n fs)
  then show ?case unfolding wire.simps(1) by (rule seq_mono0 [OF descr_mono])
next
  case (2 fc a T et vs)
  show ?case
    using seq_mono [OF descr_mono "2.IH",
        where m = "len_tok a (length vs) @ (if isCxxBoostBuiltin et then [] else u64_tok 0)"]
    by simp
next
  case (3 fc a T et vs)
  show ?case
    using seq_mono [OF descr_mono "3.IH", where m = "len_tok a (length vs)"] by simp
next
  case (4 fc a T kt vt kvs)
  show ?case
    using seq_mono [OF descr_mono "4.IH", where m = "len_tok a (length kvs) @ u64_tok 0 @ u64_tok 0"]
    by simp
next
  case (9 fc a T f v fs)
  then show ?case unfolding wire_fields.simps(2) by (rule seq_mono0)
next
  case (11 fc a T v vs)
  then show ?case unfolding wire_list.simps(2) by (rule seq_mono0)
next
  case (13 fc a T k v kvs)
  have "img_mono (\<lambda>T. case wire fc a T k of (b, U) \<Rightarrow>
          case (case wire fc a U v of (b', U) \<Rightarrow> case wire_entries fc a U kvs of (b'', U) \<Rightarrow> (b' @ b'', U))
          of (c, U) \<Rightarrow> (b @ c, U)) T"
    by (rule seq_mono0 [OF 13(1)]) (rule seq_mono0 [OF 13(2) 13(3)])
  then show ?case by (simp add: prod.case_distrib)
qed (auto simp: img_mono_def descr_def split: option.split)


lemma composite_wire:
  assumes "composite v"
  shows "\<exists>g m. (\<forall>T. wire fc a T v =
       (case descr T (type_of v) of (d, U) \<Rightarrow> case g U of (c, U) \<Rightarrow> (d @ m @ c, U))) \<and>
     (\<forall>U. img_mono g U \<and> U \<subseteq> snd (g U))"
proof (cases v)
  case (VStruct n fs)
  then show ?thesis
    by (intro exI [of _ "\<lambda>U. wire_fields fc a U fs"] exI [of _ "[]"]) (simp add: wire_mono wire_grows)
next
  case (VSlice et vs)
  then show ?thesis
    by (intro exI [of _ "\<lambda>U. wire_list fc a U vs"]
        exI [of _ "len_tok a (length vs) @ (if isCxxBoostBuiltin et then [] else u64_tok 0)"])
       (simp add: wire_mono wire_grows)
next
  case (VArray et vs)
  then show ?thesis
    by (intro exI [of _ "\<lambda>U. wire_list fc a U vs"] exI [of _ "len_tok a (length vs)"])
       (simp add: wire_mono wire_grows)
next
  case (VMap kt vt kvs)
  then show ?thesis
    by (intro exI [of _ "\<lambda>U. wire_entries fc a U kvs"]
        exI [of _ "len_tok a (length kvs) @ u64_tok 0 @ u64_tok 0"])
       (simp add: wire_mono wire_grows)
qed (use assms in simp_all)

lemma wire_elides:
  assumes "composite v" "type_of v \<notin> T"
  shows "\<exists>b. fst (wire fc a T v) = td_bytes defaultTypeDescr @ b \<and>
             length (fst (wire fc a (snd (wire fc a T v)) v)) \<le> length b"
proof -
  obtain g m where w: "\<And>T. wire fc a T v =
       (case descr T (type_of v) of (d, U) \<Rightarrow> case g U of (c, U) \<Rightarrow> (d @ m @ c, U))"
    and g: "\<And>U. img_mono g U \<and> U \<subseteq> snd (g U)"
    using composite_wire [OF assms(1)] by blast
  let ?t = "type_of v"
  obtain c1 U1 where c1: "g (insert ?t T) = (c1, U1)" by fastforce
  have S: "snd (wire fc a T v) = U1" "insert ?t T \<subseteq> U1"
    using w [of T] c1 g [of "insert ?t T"] assms(2) by (simp_all add: descr_def)
  obtain c2 U2 where c2: "g U1 = (c2, U2)" by fastforce
  have "length c2 \<le> length c1"
    using g [of "insert ?t T"] S(2) c1 c2 unfolding img_mono_def by (metis fst_conv)
  then show ?thesis
    using w [of T] w [of U1] S c1 c2 assms(2) by (auto simp: descr_def)
qed

lemma len_tok_width: "n < 2 ^ 32 \<Longrightarrow> len_tok Arch32 n = len_tok Arch64 n"
  by (simp add: len_tok_def unsigned_of_nat take_bit_nat_eq_self)

lemma prim_bytes_width: "lens_fit v \<Longrightarrow> prim_bytes fc Arch32 v = prim_bytes fc Arch64 v"
  by (cases v) (simp_all add: str_bytes_def len_tok_width)

lemma prims_width:
  "\<forall>v \<in> set vs. lens_fit v \<Longrightarrow> map (prim_bytes fc Arch32) vs = map (prim_bytes fc Arch64) vs"
  by (simp add: prim_bytes_width)

lemma wire_width:
  "lens_fit v \<Longrightarrow> wire fc Arch32 T v = wire fc Arch64 T v"
  "\<forall>(f, v) \<in> set fs. lens_fit v \<Longrightarrow> wire_fields fc Arch32 T fs = wire_fields fc Arch64 T fs"
  "\<forall>v \<in> set vs. lens_fit v \<Longrightarrow> wire_list fc Arch32 T vs = wire_list fc Arch64 T vs"
  "\<forall>(k, v) \<in> set kvs. lens_fit k \<and> lens_fit v \<Longrightarrow> wire_entries fc Arch32 T kvs = wire_entries fc Arch64 T kvs"
  by (induction fc Arch32 T v and fc Arch32 T fs and fc Arch32 T vs and fc Arch32 T kvs
      rule: wire_wire_fields_wire_list_wire_entries.induct)
     (auto simp: str_bytes_def len_tok_width prims_width split: prod.split option.split)

end
