(* ===== verification/RBuffer.thy ===== *)
theory RBuffer
  imports Format
begin

text \<open>
  The primitive reader of \<open>src/txtser/rbuffer.go\<close>: the \<open>RBuffer\<close> struct
  with its sticky error slot, the token reader \<open>readUntilDelimiter\<close>, the
  numeric reads, the length-prefixed string read, the header read and the
  type-descriptor cache.  Each method is a function from the buffer to its
  result and the updated buffer; \<open>ReadString\<close> and the methods that call it
  may panic and return a sum.
\<close>

section \<open>The byte source\<close>

text \<open>
  The underlying \<open>io.Reader\<close> is a byte sequence read from the front, as
  \<open>bytes.Reader\<close> does: a one-byte \<open>Read\<close> returns the next byte, or
  \<open>(0, io.EOF)\<close> when none is left.  \<open>io.ReadFull(src, buf)\<close> fills the
  buffer from the front: it returns \<open>io.EOF\<close> when no byte was read and
  \<open>io.ErrUnexpectedEOF\<close> when only some were; the unfilled tail of the buffer
  keeps its old bytes.
\<close>

definition io_ReadFull :: "bytes \<Rightarrow> bytes \<Rightarrow> bytes \<times> error option \<times> bytes" where
  "io_ReadFull buf src =
     (let n = length buf; k = min n (length src)
      in (take n src @ drop k buf,
          (if k = n then None else if k = 0 then Some ErrEOF else Some ErrUnexpectedEOF),
          drop n src))"

section \<open>The reader state\<close>

text \<open>
  \<open>RBuffer\<close> (lines 14-21): \<open>r_nil\<close> records whether the reader \<open>r.r\<close> is
  nil, \<open>r_r\<close> holds its unread bytes, \<open>r_err\<close> is the sticky error,
  \<open>r_arch\<close> the profile and \<open>r_types\<close> the type registry.  The scratch
  buffer \<open>buf\<close> is used only by commented-out code and is omitted.  Go
  dereferences a nil reader in every method but \<open>ReadHeader\<close>, which tests
  for it first; the model reads a nil reader as an empty one there.
\<close>

record rbuffer =
  r_nil :: bool
  r_r :: bytes
  r_err :: "error option"
  r_arch :: arch
  r_types :: "rtype \<rightharpoonup> TypeDescr"

definition NewRBuffer :: "bytes option \<Rightarrow> rbuffer" where
  "NewRBuffer src =
     \<lparr>r_nil = (src = None), r_r = (case src of None \<Rightarrow> [] | Some bs \<Rightarrow> bs),
      r_err = None, r_arch = ArchDefault, r_types = Map.empty\<rparr>"

section \<open>Tokens\<close>

text \<open>
  The loop of \<open>readUntilDelimiter\<close> (lines 259-286).  Each round reads one
  byte; on \<open>io.EOF\<close> the count \<open>n\<close> is the zero that \<open>Read\<close> returned and
  the loop stops; otherwise \<open>n\<close> becomes 2 (\<open>n++\<close> after a one-byte read),
  and a space ends the token.  So \<open>n = 0\<close> after the loop exactly when the
  source ran dry before a space, whatever was read before.
\<close>

fun rud_loop :: "bytes \<Rightarrow> string \<Rightarrow> nat \<Rightarrow> string \<times> nat \<times> bytes" where
  "rud_loop [] ret n = (ret, 0, [])"
| "rud_loop (b # bs) ret n =
     (let n = (1::nat); n = n + 1
      in if b = CHR '' '' then (ret, n, bs) else rud_loop bs (ret @ [b]) n)"

definition readUntilDelimiter :: "rbuffer \<Rightarrow> string \<times> rbuffer" where
  "readUntilDelimiter r =
     (if r_err r \<noteq> None then ([], r)
      else (case rud_loop (r_r r) [] 0 of
              (ret, n, rest) \<Rightarrow>
                if n = 0 then ([], r\<lparr>r_r := rest, r_err := Some ErrUnexpectedEOF\<rparr>)
                else (ret, r\<lparr>r_r := rest\<rparr>)))"

text \<open>\<open>skipDelimiter\<close> (lines 119-129) reads one byte without looking at the
  sticky error; running dry is not an error.\<close>

definition skipDelimiter :: "rbuffer \<Rightarrow> rbuffer" where
  "skipDelimiter r =
     (case r_r r of
        [] \<Rightarrow> r
      | b # bs \<Rightarrow> if b \<noteq> CHR '' '' then r\<lparr>r_r := bs, r_err := Some ErrNotADelimiter\<rparr>
                  else r\<lparr>r_r := bs\<rparr>)"

section \<open>Numbers\<close>

definition ReadU64 :: "rbuffer \<Rightarrow> u64 \<times> rbuffer" where
  "ReadU64 r =
     (if r_err r \<noteq> None then (0, r)
      else (case readUntilDelimiter r of
              (s, r) \<Rightarrow>
                if r_err r \<noteq> None then (0, r)
                else (case ParseUint s of
                        (v, None) \<Rightarrow> (v, r)
                      | (v, Some e) \<Rightarrow> (0, r\<lparr>r_err := Some e\<rparr>))))"

definition ReadU32 :: "rbuffer \<Rightarrow> u32 \<times> rbuffer" where
  "ReadU32 r = (case ReadU64 r of (v, r) \<Rightarrow> (ucast v, r))"

definition ReadU16 :: "rbuffer \<Rightarrow> u16 \<times> rbuffer" where
  "ReadU16 r = (case ReadU64 r of (v, r) \<Rightarrow> (ucast v, r))"

definition ReadU8 :: "rbuffer \<Rightarrow> u8 \<times> rbuffer" where
  "ReadU8 r = (case ReadU64 r of (v, r) \<Rightarrow> (ucast v, r))"

definition ReadBool :: "rbuffer \<Rightarrow> bool \<times> rbuffer" where
  "ReadBool r = (case ReadU8 r of (v, r) \<Rightarrow> (if v = 0 then False else True, r))"

definition ReadI64 :: "rbuffer \<Rightarrow> i64 \<times> rbuffer" where
  "ReadI64 r =
     (if r_err r \<noteq> None then (0, r)
      else (case readUntilDelimiter r of
              (s, r) \<Rightarrow>
                if r_err r \<noteq> None then (0, r)
                else (case ParseInt s of
                        (v, None) \<Rightarrow> (v, r)
                      | (v, Some e) \<Rightarrow> (0, r\<lparr>r_err := Some e\<rparr>))))"

definition ReadI32 :: "rbuffer \<Rightarrow> i32 \<times> rbuffer" where
  "ReadI32 r = (case ReadI64 r of (v, r) \<Rightarrow> (scast v, r))"

definition ReadI16 :: "rbuffer \<Rightarrow> i16 \<times> rbuffer" where
  "ReadI16 r = (case ReadI64 r of (v, r) \<Rightarrow> (scast v, r))"

definition ReadI8 :: "rbuffer \<Rightarrow> i8 \<times> rbuffer" where
  "ReadI8 r = (case ReadI64 r of (v, r) \<Rightarrow> (scast v, r))"

section \<open>Lengths and strings\<close>

text \<open>
  \<open>readLen\<close> (lines 110-117) converts to Go's 64-bit \<open>int\<close>: a \<open>uint32\<close> keeps
  its value, a \<open>uint64\<close> at or above \<open>2^63\<close> becomes negative (\<open>sint\<close>).
\<close>

definition readLen :: "rbuffer \<Rightarrow> int \<times> rbuffer" where
  "readLen r =
     (case r_arch r of
        Arch32 \<Rightarrow> (case ReadU32 r of (v, r) \<Rightarrow> (int (unat v), r))
      | _ \<Rightarrow> (case ReadU64 r of (v, r) \<Rightarrow> (sint v, r)))"

text \<open>
  The Go runtime's allocation limit \<open>maxAlloc\<close> on 64-bit targets
  (\<open>1 << heapAddrBits\<close>, 48 address bits): \<open>make\<close> panics with
  "len out of range" for a byte slice longer than this, as for a negative length.
\<close>

definition maxAlloc :: int where
  "maxAlloc = 2 ^ 48"

text \<open>
  \<open>ReadString\<close> (lines 131-140).  A zero length returns at once, without
  touching the delimiter.  \<open>make([]byte, n)\<close> at line 136 panics for a negative
  \<open>n\<close> and for one above \<open>maxAlloc\<close>.
  \<open>io.ReadFull\<close> writes its error straight into the sticky slot, and
  \<open>skipDelimiter\<close> runs whatever that error is.
\<close>

definition ReadString :: "rbuffer \<Rightarrow> panic + string \<times> rbuffer" where
  "ReadString r =
     (case readLen r of
        (n, r) \<Rightarrow>
          if n = 0 \<or> r_err r \<noteq> None then Inr ([], r)
          else if n < 0 \<or> maxAlloc < n then Inl PanicMakeSliceLen
          else (case io_ReadFull (replicate (nat n) (CHR 0x00)) (r_r r) of
                  (raw, err, rest) \<Rightarrow> Inr (raw, skipDelimiter (r\<lparr>r_r := rest, r_err := err\<rparr>))))"

text \<open>\<open>Read\<close> (lines 101-108), the \<open>io.Reader\<close> method: fills the buffer
  \<open>p\<close> through \<open>io.ReadFull\<close> unless an error is latched, and latches the
  error of \<open>io.ReadFull\<close>.\<close>

definition Read :: "bytes \<Rightarrow> rbuffer \<Rightarrow> (bytes \<times> nat \<times> error option) \<times> rbuffer" where
  "Read p r =
     (if r_err r \<noteq> None then ((p, 0, r_err r), r)
      else (case io_ReadFull p (r_r r) of
              (p', err, rest) \<Rightarrow>
                ((p', min (length p) (length (r_r r)), err), r\<lparr>r_r := rest, r_err := err\<rparr>)))"

section \<open>Floating point\<close>

text \<open>
  \<open>ReadF64\<close> (lines 208-223) has the shape of \<open>ReadU64\<close> with
  \<open>strconv.ParseFloat(s, 64)\<close> as the parser, taken from the float codec.
  \<open>ReadF32\<close> narrows with Go's \<open>float32\<close> conversion; the complex reads take
  the real part, then the imaginary part.
\<close>

definition ReadF64 :: "float_codec \<Rightarrow> rbuffer \<Rightarrow> u64 \<times> rbuffer" where
  "ReadF64 fc r =
     (if r_err r \<noteq> None then (0, r)
      else (case readUntilDelimiter r of
              (s, r) \<Rightarrow>
                if r_err r \<noteq> None then (0, r)
                else (case ParseFloat64 fc s of
                        (v, None) \<Rightarrow> (v, r)
                      | (v, Some e) \<Rightarrow> (0, r\<lparr>r_err := Some (NumError FnParseFloat s e)\<rparr>))))"

definition ReadF32 :: "float_codec \<Rightarrow> rbuffer \<Rightarrow> u32 \<times> rbuffer" where
  "ReadF32 fc r = (case ReadF64 fc r of (v, r) \<Rightarrow> (Float64to32 fc v, r))"

definition ReadC64 :: "float_codec \<Rightarrow> rbuffer \<Rightarrow> (u32 \<times> u32) \<times> rbuffer" where
  "ReadC64 fc r =
     (case ReadF32 fc r of (v0, r) \<Rightarrow> (case ReadF32 fc r of (v1, r) \<Rightarrow> ((v0, v1), r)))"

definition ReadC128 :: "float_codec \<Rightarrow> rbuffer \<Rightarrow> (u64 \<times> u64) \<times> rbuffer" where
  "ReadC128 fc r =
     (case ReadF64 fc r of (v0, r) \<Rightarrow> (case ReadF64 fc r of (v1, r) \<Rightarrow> ((v0, v1), r)))"

section \<open>Header\<close>

text \<open>
  \<open>Header.UnmarshalBoost\<close> (not among the sources; from the specification,
  section 4.2): the version, then the flags, through the primitive reader.
\<close>

definition Header_UnmarshalBoost :: "rbuffer \<Rightarrow> header \<times> rbuffer" where
  "Header_UnmarshalBoost r =
     (case ReadU16 r of
        (v, r) \<Rightarrow> (case ReadU64 r of (f, r) \<Rightarrow> (\<lparr>hdr_Version = v, hdr_Flags = f\<rparr>, r)))"

text \<open>
  \<open>ReadHeader\<close> (lines 34-83): a nil reader, any error of the signature
  string, or a signature other than \<open>serialization::archive\<close> latch
  \<open>ErrNotBoost\<close>; an error while reading the header fields latches
  \<open>ErrInvalidHeader\<close>, whichever error it was.
\<close>

definition ReadHeader :: "rbuffer \<Rightarrow> panic + header \<times> rbuffer" where
  "ReadHeader r =
     (if r_nil r then Inr (zeroHdr, r\<lparr>r_err := Some ErrNotBoost\<rparr>)
      else if r_err r \<noteq> None then Inr (zeroHdr, r)
      else (case ReadString r of
              Inl p \<Rightarrow> Inl p
            | Inr (v, r) \<Rightarrow>
                if r_err r \<noteq> None then Inr (zeroHdr, r\<lparr>r_err := Some ErrNotBoost\<rparr>)
                else if v \<noteq> magicHeaderSignature then Inr (zeroHdr, r\<lparr>r_err := Some ErrNotBoost\<rparr>)
                else (case Header_UnmarshalBoost r of
                        (hdr, r) \<Rightarrow>
                          if r_err r \<noteq> None then Inr (hdr, r\<lparr>r_err := Some ErrInvalidHeader\<rparr>)
                          else Inr (hdr, r))))"

section \<open>Type descriptors\<close>

text \<open>\<open>TypeDescr.UnmarshalBoost\<close> (from the specification): version, then flags.\<close>

definition TypeDescr_UnmarshalBoost :: "rbuffer \<Rightarrow> TypeDescr \<times> rbuffer" where
  "TypeDescr_UnmarshalBoost r =
     (case ReadU32 r of
        (v, r) \<Rightarrow> (case ReadU8 r of (f, r) \<Rightarrow> (\<lparr>td_Version = v, td_Flags = f\<rparr>, r)))"

text \<open>
  \<open>ReadTypeDescr\<close> (lines 85-99): a cached descriptor is returned without
  reading; otherwise one is decoded and cached if the slot is clear afterwards,
  and any error in the slot (also one latched before the call) is replaced by
  \<open>ErrInvalidTypeDescr\<close>.
\<close>

definition ReadTypeDescr :: "rtype \<Rightarrow> rbuffer \<Rightarrow> TypeDescr \<times> rbuffer" where
  "ReadTypeDescr t r =
     (case r_types r t of
        Some d \<Rightarrow> (d, r)
      | None \<Rightarrow>
          (case TypeDescr_UnmarshalBoost r of
             (d, r) \<Rightarrow>
               if r_err r = None then (d, r\<lparr>r_types := (r_types r)(t \<mapsto> d)\<rparr>)
               else (d, r\<lparr>r_err := Some ErrInvalidTypeDescr\<rparr>)))"

section \<open>Frames\<close>

text \<open>
  The frame of a read: the fields a primitive read leaves alone.
\<close>

definition rframe :: "rbuffer \<Rightarrow> rbuffer \<Rightarrow> bool" where
  "rframe r r' \<longleftrightarrow> r_nil r' = r_nil r \<and> r_arch r' = r_arch r \<and> r_types r' = r_types r"

section \<open>Reading tokens\<close>


lemma rud_loop_token:
  "CHR '' '' \<notin> set tok \<Longrightarrow> rud_loop (tok @ CHR '' '' # rest) ret n = (ret @ tok, 2, rest)"
  by (induction tok arbitrary: ret n) auto

lemma rud_loop_nodelim:
  "CHR '' '' \<notin> set src \<Longrightarrow> rud_loop src ret n = (ret @ src, 0, [])"
  by (induction src arbitrary: ret n) auto

lemma readUntilDelimiter_token:
  assumes "r_err r = None" and "CHR '' '' \<notin> set tok" and "r_r r = tok @ CHR '' '' # rest"
  shows "readUntilDelimiter r = (tok, r\<lparr>r_r := rest\<rparr>)"
  using assms by (simp add: readUntilDelimiter_def rud_loop_token)

lemma readUntilDelimiter_nodelim:
  assumes "r_err r = None" and "CHR '' '' \<notin> set (r_r r)"
  shows "readUntilDelimiter r = ([], r\<lparr>r_r := [], r_err := Some ErrUnexpectedEOF\<rparr>)"
  using assms by (simp add: readUntilDelimiter_def rud_loop_nodelim)

lemma sticky [rbuf_simps]:
  assumes "r_err r \<noteq> None"
  shows "readUntilDelimiter r = ([], r)" and "ReadU64 r = (0, r)" and "ReadI64 r = (0, r)"
    and "ReadF64 fc r = (0, r)"
    and "ReadU32 r = (0, r)" and "ReadU16 r = (0, r)" and "ReadU8 r = (0, r)"
    and "ReadI32 r = (0, r)" and "ReadI16 r = (0, r)" and "ReadI8 r = (0, r)"
    and "ReadBool r = (False, r)" and "readLen r = (0, r)" and "ReadString r = Inr ([], r)"
  using assms
  by (simp_all add: readUntilDelimiter_def ReadU64_def ReadI64_def ReadF64_def ReadU32_def
      ReadU16_def ReadU8_def ReadI32_def ReadI16_def ReadI8_def ReadBool_def readLen_def
      ReadString_def split: arch.split)

lemma ReadU64_FormatUint:
  assumes "r_err r = None" and "r_r r = FormatUint w @ CHR '' '' # rest"
  shows "ReadU64 r = (w, r\<lparr>r_r := rest\<rparr>)"
proof -
  have "readUntilDelimiter r = (FormatUint w, r\<lparr>r_r := rest\<rparr>)"
    using assms FormatUint_token [of w] by (simp add: readUntilDelimiter_token)
  then show ?thesis using assms(1) by (simp add: ReadU64_def ParseUint_FormatUint)
qed

lemma ReadI64_FormatInt:
  assumes "r_err r = None" and "r_r r = FormatInt w @ CHR '' '' # rest"
  shows "ReadI64 r = (w, r\<lparr>r_r := rest\<rparr>)"
proof -
  have "readUntilDelimiter r = (FormatInt w, r\<lparr>r_r := rest\<rparr>)"
    using assms FormatInt_token [of w] by (simp add: readUntilDelimiter_token)
  then show ?thesis using assms(1) by (simp add: ReadI64_def ParseInt_FormatInt)
qed

lemma ReadString_FormatUint:
  assumes "r_err r = None" and "r_arch r \<noteq> Arch32"
    and "s \<noteq> []" and "length s \<le> 2 ^ 48"
    and "r_r r = FormatUint (word_of_nat (length s)) @ CHR '' '' # s @ CHR '' '' # rest"
  shows "ReadString r = Inr (s, r\<lparr>r_r := rest\<rparr>)"
proof -
  have u: "unat (word_of_nat (length s) :: u64) = length s"
    using assms(4) by (simp add: unat_of_nat)
  have si: "sint (word_of_nat (length s) :: u64) = int (length s)"
    using assms(4) by (simp add: sint_uint uint_nat u signed_take_bit_int_eq_self)
  have rl: "readLen r = (int (length s), r\<lparr>r_r := s @ CHR '' '' # rest\<rparr>)"
    using assms(1,2,5) si
    by (cases "r_arch r") (simp_all add: readLen_def ReadU64_FormatUint)
  show ?thesis
    using assms(1,3,4) rl by (simp add: ReadString_def maxAlloc_def io_ReadFull_def skipDelimiter_def)
qed

lemma readLen_token:
  assumes "r_err r = None" and "r_arch r \<noteq> Arch32" and "r_r r = FormatUint w @ CHR '' '' # rest"
  shows "readLen r = (sint w, r\<lparr>r_r := rest\<rparr>)"
  using assms by (cases "r_arch r") (simp_all add: readLen_def ReadU64_FormatUint)

section \<open>Header and type descriptors on the wire\<close>

lemma readLen_small:
  assumes "r_err r = None" and "n < 2 ^ 32"
    and "r_r r = FormatUint (word_of_nat n) @ CHR '' '' # rest"
  shows "readLen r = (int n, r\<lparr>r_r := rest\<rparr>)"
proof -
  have u: "unat (word_of_nat n :: u64) = n"
    using assms(2) by (simp add: unat_of_nat)
  have s: "sint (word_of_nat n :: u64) = int n"
    using assms(2) u sint_u64 [of "word_of_nat n"] by (simp add: uint_nat)
  have u32: "unat (ucast (word_of_nat n :: u64) :: u32) = n"
    using assms(2) by (simp add: unsigned_ucast_eq unat_of_nat take_bit_nat_eq_self_iff)
  have i32: "uint (ucast (word_of_nat n :: u64) :: u32) = int n"
    using u32 uint_nat by metis
  show ?thesis
    using assms s i32 by (cases "r_arch r") (simp_all add: readLen_def ReadU32_def ReadU64_FormatUint)
qed

lemma ReadString_token:
  assumes "r_err r = None" and "s \<noteq> []" and "length s < 2 ^ 32"
    and "r_r r = FormatUint (word_of_nat (length s)) @ CHR '' '' # s @ CHR '' '' # rest"
  shows "ReadString r = Inr (s, r\<lparr>r_r := rest\<rparr>)"
  using assms readLen_small [OF assms(1,3,4)]
  by (simp add: ReadString_def maxAlloc_def io_ReadFull_def skipDelimiter_def)

lemma signature_bytes_eq:
  "signature_bytes = FormatUint (word_of_nat (length magicHeaderSignature)) @ CHR '' '' # magicHeaderSignature @ [CHR '' '']"
  by (simp add: signature_bytes_def magicHeaderSignature_def)

lemma ReadHeader_after_signature:
  assumes "\<not> r_nil r" and "r_err r = None" and "r_r r = signature_bytes @ t"
  shows "ReadHeader r =
           (case Header_UnmarshalBoost (r\<lparr>r_r := t\<rparr>) of
              (h, r') \<Rightarrow> Inr (h, if r_err r' = None then r' else r'\<lparr>r_err := Some ErrInvalidHeader\<rparr>))"
proof -
  have "ReadString r = Inr (magicHeaderSignature, r\<lparr>r_r := t\<rparr>)"
    using assms(2,3) by (intro ReadString_token) (simp_all add: signature_bytes_eq magicHeaderSignature_def)
  then show ?thesis
    using assms(1,2) by (simp add: ReadHeader_def split: prod.split)
qed

lemma Header_UnmarshalBoost_no_token:
  assumes "r_err r = None" and "CHR '' '' \<notin> set (r_r r)"
  shows "r_err (snd (Header_UnmarshalBoost r)) = Some ErrUnexpectedEOF"
  using assms readUntilDelimiter_nodelim [OF assms]
  by (simp add: Header_UnmarshalBoost_def ReadU16_def ReadU64_def sticky)

lemma Header_UnmarshalBoost_one_token:
  assumes "r_err r = None" and "CHR '' '' \<notin> set t" and "r_r r = FormatUint v @ CHR '' '' # t"
  shows "r_err (snd (Header_UnmarshalBoost r)) = Some ErrUnexpectedEOF"
proof -
  have "ReadU64 r = (v, r\<lparr>r_r := t\<rparr>)"
    using assms(1,3) by (rule ReadU64_FormatUint)
  moreover have "readUntilDelimiter (r\<lparr>r_r := t\<rparr>) = ([], r\<lparr>r_r := [], r_err := Some ErrUnexpectedEOF\<rparr>)"
    using assms(1,2) readUntilDelimiter_nodelim [of "r\<lparr>r_r := t\<rparr>"] by simp
  ultimately show ?thesis
    using assms(1) by (simp add: Header_UnmarshalBoost_def ReadU16_def ReadU64_def [of "r\<lparr>r_r := t\<rparr>"])
qed


lemma Header_UnmarshalBoost_bytes:
  assumes "r_err r = None" and "r_r r = header_bytes h @ rest"
  shows "Header_UnmarshalBoost r = (h, r\<lparr>r_r := rest\<rparr>)"
proof -
  have a: "ReadU64 r = (ucast (hdr_Version h), r\<lparr>r_r := FormatUint (hdr_Flags h) @ CHR '' '' # rest\<rparr>)"
    using assms by (intro ReadU64_FormatUint) (simp_all add: header_bytes_def u64_tok_def delimited_def)
  have b: "ReadU64 (r\<lparr>r_r := FormatUint (hdr_Flags h) @ CHR '' '' # rest\<rparr>) = (hdr_Flags h, r\<lparr>r_r := rest\<rparr>)"
    using assms(1) ReadU64_FormatUint [of "r\<lparr>r_r := FormatUint (hdr_Flags h) @ CHR '' '' # rest\<rparr>"] by simp
  show ?thesis
    using a b by (simp add: Header_UnmarshalBoost_def ReadU16_def)
qed

lemma take_header_bytes:
  assumes "k < length (header_bytes h)"
  shows "CHR '' '' \<notin> set (take k (header_bytes h)) \<or>
         (\<exists>t. take k (header_bytes h) = FormatUint (ucast (hdr_Version h)) @ CHR '' '' # t \<and> CHR '' '' \<notin> set t)"
proof -
  let ?V = "FormatUint (ucast (hdr_Version h) :: u64)" and ?F = "FormatUint (hdr_Flags h)"
  have hb: "header_bytes h = ?V @ CHR '' '' # ?F @ [CHR '' '']"
    by (simp add: header_bytes_def u64_tok_def delimited_def)
  have nV: "CHR '' '' \<notin> set ?V" and nF: "CHR '' '' \<notin> set ?F"
    using FormatUint_token by blast+
  show ?thesis
  proof (cases "k \<le> length ?V")
    case True
    then have "take k (header_bytes h) = take k ?V"
      by (simp add: hb)
    moreover have "CHR '' '' \<notin> set (take k ?V)"
      using nV set_take_subset [of k ?V] by blast
    ultimately show ?thesis by simp
  next
    case False
    let ?j = "k - length ?V - 1"
    have j: "?j \<le> length ?F"
      using assms False by (simp add: hb)
    have "take k (header_bytes h) = ?V @ take (k - length ?V) (CHR '' '' # ?F @ [CHR '' ''])"
      using False by (simp add: hb)
    also have "\<dots> = ?V @ CHR '' '' # take ?j (?F @ [CHR '' ''])"
      using False by (simp add: take_Cons')
    also have "take ?j (?F @ [CHR '' '']) = take ?j ?F"
      using j by simp
    finally have "take k (header_bytes h) = ?V @ CHR '' '' # take ?j ?F" .
    moreover have "CHR '' '' \<notin> set (take ?j ?F)"
      using nF set_take_subset [of ?j ?F] by blast
    ultimately show ?thesis by blast
  qed
qed

lemma ReadHeader_ok:
  assumes "\<not> r_nil r" and "r_err r = None" and "r_r r = signature_bytes @ header_bytes h @ rest"
  shows "ReadHeader r = Inr (h, r\<lparr>r_r := rest\<rparr>)"
  using ReadHeader_after_signature [OF assms(1,2,3)] Header_UnmarshalBoost_bytes [of "r\<lparr>r_r := header_bytes h @ rest\<rparr>" h rest] assms(2)
  by simp


lemma TypeDescr_UnmarshalBoost_bytes:
  assumes "r_err r = None" and "r_r r = td_bytes d @ rest"
  shows "TypeDescr_UnmarshalBoost r = (d, r\<lparr>r_r := rest\<rparr>)"
proof -
  have a: "ReadU64 r = (ucast (td_Version d), r\<lparr>r_r := FormatUint (ucast (td_Flags d)) @ CHR '' '' # rest\<rparr>)"
    using assms by (intro ReadU64_FormatUint) (simp_all add: td_bytes_def u64_tok_def delimited_def)
  have b: "ReadU64 (r\<lparr>r_r := FormatUint (ucast (td_Flags d)) @ CHR '' '' # rest\<rparr>) = (ucast (td_Flags d), r\<lparr>r_r := rest\<rparr>)"
    using assms(1) ReadU64_FormatUint [of "r\<lparr>r_r := FormatUint (ucast (td_Flags d)) @ CHR '' '' # rest\<rparr>"] by simp
  show ?thesis
    using a b by (simp add: TypeDescr_UnmarshalBoost_def ReadU32_def ReadU8_def)
qed

lemma ReadTypeDescr_cached [rbuf_simps]:
  "r_types r t = Some d \<Longrightarrow> ReadTypeDescr t r = (d, r)"
  by (simp add: ReadTypeDescr_def)

lemma ReadTypeDescr_fresh:
  assumes "r_types r t = None" and "r_err r = None" and "r_r r = td_bytes d @ rest"
  shows "ReadTypeDescr t r = (d, r\<lparr>r_r := rest, r_types := (r_types r)(t \<mapsto> d)\<rparr>)"
  using assms TypeDescr_UnmarshalBoost_bytes [OF assms(2,3)] by (simp add: ReadTypeDescr_def)

lemma rframe_refl [simp]: "rframe r r"
  by (simp add: rframe_def)

lemma rframe_trans: "rframe r r' \<Longrightarrow> rframe r' r'' \<Longrightarrow> rframe r r''"
  by (simp add: rframe_def)

lemma rframe_reads:
  shows "rframe r (snd (readUntilDelimiter r))" and "rframe r (snd (ReadU64 r))"
    and "rframe r (snd (ReadI64 r))" and "rframe r (snd (ReadF64 fc r))"
  by (auto simp: rframe_def readUntilDelimiter_def ReadU64_def ReadI64_def ReadF64_def
      split: prod.split option.split)

lemma rframe_TypeDescr_UnmarshalBoost: "rframe r (snd (TypeDescr_UnmarshalBoost r))"
  using rframe_reads(2) [of r] rframe_reads(2) [of "snd (ReadU64 r)"]
  by (auto simp: TypeDescr_UnmarshalBoost_def ReadU32_def ReadU8_def rframe_def split: prod.split)

lemma ReadTypeDescr_types_mono:
  "r_types r \<subseteq>\<^sub>m r_types (snd (ReadTypeDescr t r))"
  using rframe_TypeDescr_UnmarshalBoost [of r]
  by (auto simp: ReadTypeDescr_def map_le_def rframe_def split: option.split prod.split)

section \<open>Properties of the reader\<close>

text \<open>
  C1: \<open>ReadU64\<close> succeeds exactly on a non-empty run of decimal digits whose value is
  below \<open>2^64\<close>, followed by a space; it returns that value and consumes the token
  and its delimiter, nothing more.
\<close>

theorem ReadU64_ok_iff:
  assumes "r_err r = None"
  shows "(ReadU64 r = (v, r') \<and> r_err r' = None) \<longleftrightarrow>
         (\<exists>tok rest. r_r r = tok @ CHR '' '' # rest \<and> CHR '' '' \<notin> set tok \<and>
            tok \<noteq> [] \<and> list_all is_digit tok \<and> dec_from 0 tok < 2 ^ 64 \<and>
            v = word_of_nat (dec_from 0 tok) \<and> r' = r\<lparr>r_r := rest\<rparr>)"
proof (cases "CHR '' '' \<in> set (r_r r)")
  case True
  then obtain tok rest where src: "r_r r = tok @ CHR '' '' # rest" and nt: "CHR '' '' \<notin> set tok"
    using split_at_delim [OF True] by blast
  have rd: "readUntilDelimiter r = (tok, r\<lparr>r_r := rest\<rparr>)"
    using assms nt src by (rule readUntilDelimiter_token)
  have split_unique: "r_r r = tok' @ CHR '' '' # rest' \<Longrightarrow> CHR '' '' \<notin> set tok' \<Longrightarrow> tok' = tok \<and> rest' = rest"
    for tok' rest'
    using src nt split_first_unique [of tok' "CHR '' ''" rest' tok rest] by simp
  show ?thesis
  proof
    assume "ReadU64 r = (v, r') \<and> r_err r' = None"
    then have "ParseUint tok = (v, None) \<and> r' = r\<lparr>r_r := rest\<rparr>"
      using assms rd by (auto simp: ReadU64_def split: option.splits prod.splits)
    then show "\<exists>tok rest. r_r r = tok @ CHR '' '' # rest \<and> CHR '' '' \<notin> set tok \<and>
            tok \<noteq> [] \<and> list_all is_digit tok \<and> dec_from 0 tok < 2 ^ 64 \<and>
            v = word_of_nat (dec_from 0 tok) \<and> r' = r\<lparr>r_r := rest\<rparr>"
      using src nt by (auto simp: ParseUint_ok_iff)
  next
    assume "\<exists>tok rest. r_r r = tok @ CHR '' '' # rest \<and> CHR '' '' \<notin> set tok \<and>
            tok \<noteq> [] \<and> list_all is_digit tok \<and> dec_from 0 tok < 2 ^ 64 \<and>
            v = word_of_nat (dec_from 0 tok) \<and> r' = r\<lparr>r_r := rest\<rparr>"
    then obtain tok' rest' where h: "r_r r = tok' @ CHR '' '' # rest'" "CHR '' '' \<notin> set tok'"
      "tok' \<noteq> [] \<and> list_all is_digit tok' \<and> dec_from 0 tok' < 2 ^ 64"
      "v = word_of_nat (dec_from 0 tok')" "r' = r\<lparr>r_r := rest'\<rparr>"
      by blast
    then have "tok' = tok \<and> rest' = rest" using split_unique by blast
    with h have "ParseUint tok = (v, None)" and "r' = r\<lparr>r_r := rest\<rparr>"
      by (simp_all add: ParseUint_ok_iff)
    then show "ReadU64 r = (v, r') \<and> r_err r' = None"
      using assms rd by (simp add: ReadU64_def)
  qed
next
  case False
  then have "readUntilDelimiter r = ([], r\<lparr>r_r := [], r_err := Some ErrUnexpectedEOF\<rparr>)"
    using assms by (rule readUntilDelimiter_nodelim [rotated])
  then show ?thesis using False by (auto simp: ReadU64_def)
qed

theorem ReadU64_ok_iff_witness:
  "r_err (NewRBuffer (Some ''42 x'')) = None \<and>
   ReadU64 (NewRBuffer (Some ''42 x'')) = (42, (NewRBuffer (Some ''42 x''))\<lparr>r_r := ''x''\<rparr>) \<and>
   (\<exists>tok rest. r_r (NewRBuffer (Some ''42 x'')) = tok @ CHR '' '' # rest \<and> CHR '' '' \<notin> set tok \<and>
      tok \<noteq> [] \<and> list_all is_digit tok \<and> dec_from 0 tok < 2 ^ 64 \<and>
      (42::u64) = word_of_nat (dec_from 0 tok) \<and>
      (NewRBuffer (Some ''42 x''))\<lparr>r_r := ''x''\<rparr> = (NewRBuffer (Some ''42 x''))\<lparr>r_r := rest\<rparr>)"
proof -
  let ?r = "NewRBuffer (Some ''42 x'')"
  have e: "r_err ?r = None" by (simp add: NewRBuffer_def)
  have c: "ReadU64 ?r = (42, ?r\<lparr>r_r := ''x''\<rparr>)"
    by (simp add: NewRBuffer_def ReadU64_def readUntilDelimiter_def ParseUint_def
        is_digit_def digit_val_def uint_cutoff_def)
  show ?thesis
    using ReadU64_ok_iff [OF e, of 42 "?r\<lparr>r_r := ''x''\<rparr>"] e c by (simp add: NewRBuffer_def)
qed

text \<open>
  C5: the narrowing reads do not check ranges: \<open>ReadU8\<close> on any well-formed
  64-bit token returns its value modulo 256 and latches no error.
\<close>

theorem ReadU8_token_wraps:
  assumes "r_err r = None" and "r_r r = FormatUint w @ CHR '' '' # rest"
  shows "ReadU8 r = (word_of_nat (unat w mod 256), r\<lparr>r_r := rest\<rparr>) \<and> r_err (snd (ReadU8 r)) = None"
proof -
  have "(ucast w :: u8) = word_of_nat (unat w mod 256)"
    by (simp add: word_unat_eq_iff unsigned_ucast_eq take_bit_eq_mod unat_of_nat)
  then show ?thesis
    using ReadU64_FormatUint [OF assms] assms(1) by (simp add: ReadU8_def)
qed

theorem ReadU8_token_wraps_witness:
  "ReadU8 (NewRBuffer (Some ''300 x'')) = (44, (NewRBuffer (Some ''300 x''))\<lparr>r_r := ''x''\<rparr>)"
proof -
  have h: "r_err (NewRBuffer (Some ''300 x'')) = None"
    "r_r (NewRBuffer (Some ''300 x'')) = FormatUint 300 @ CHR '' '' # ''x''"
    by (simp_all add: NewRBuffer_def FormatUint_def fmt_nat.simps)
  show ?thesis using ReadU8_token_wraps [OF h] by simp
qed

text \<open>
  C9: on a non-nil reader, a numeric token that the source ends before a space
  terminates fails with
  \<open>io.ErrUnexpectedEOF\<close> and consumes the rest of the source, even when digits
  were read.
\<close>

theorem ReadU64_no_delimiter:
  assumes "\<not> r_nil r" and "r_err r = None" and "CHR '' '' \<notin> set (r_r r)"
  shows "ReadU64 r = (0, r\<lparr>r_r := [], r_err := Some ErrUnexpectedEOF\<rparr>)"
  using readUntilDelimiter_nodelim [OF assms(2,3)] assms(2) by (simp add: ReadU64_def)

theorem ReadU64_no_delimiter_witness:
  "ReadU64 (NewRBuffer (Some ''42'')) = (0, (NewRBuffer (Some ''42''))\<lparr>r_r := [], r_err := Some ErrUnexpectedEOF\<rparr>)"
  using ReadU64_no_delimiter [of "NewRBuffer (Some ''42'')"] by (simp add: NewRBuffer_def)

text \<open>
  C7: a string of length zero returns at once: the delimiter that follows the
  payload is not consumed and stays at the front of the source.
\<close>

theorem ReadString_zero_length:
  assumes "r_err r = None" and "r_arch r \<noteq> Arch32" and "r_r r = FormatUint 0 @ CHR '' '' # rest"
  shows "ReadString r = Inr ([], r\<lparr>r_r := rest\<rparr>)"
  using readLen_token [OF assms] by (simp add: ReadString_def)

theorem ReadString_zero_length_witness:
  "ReadString (NewRBuffer (Some ''0  7 '')) = Inr ([], (NewRBuffer (Some ''0  7 ''))\<lparr>r_r := '' 7 ''\<rparr>)"
proof -
  have h: "r_err (NewRBuffer (Some ''0  7 '')) = None" "r_arch (NewRBuffer (Some ''0  7 '')) \<noteq> Arch32"
    "r_r (NewRBuffer (Some ''0  7 '')) = FormatUint 0 @ CHR '' '' # '' 7 ''"
    by (simp_all add: NewRBuffer_def FormatUint_def fmt_nat.simps)
  show ?thesis using ReadString_zero_length [OF h] by simp
qed

text \<open>
  C6: a 64-bit length token above \<open>2^48\<close> makes \<open>ReadString\<close> panic in
  \<open>make\<close> instead of returning an error: from \<open>2^63\<close> it is a negative Go
  \<open>int\<close>, below that it exceeds the allocation limit.
\<close>

theorem ReadString_negative_length_panics:
  assumes "r_err r = None" and "r_arch r \<noteq> Arch32" and "r_r r = FormatUint w @ CHR '' '' # rest"
    and "2 ^ 48 < unat w"
  shows "ReadString r = Inl PanicMakeSliceLen"
proof -
  have "sint w < 0 \<or> maxAlloc < sint w"
  proof (cases "sint w < 0")
    case False
    then have "sint w = uint w"
      using uint_bounded [of w] by (simp add: sint_u64 split: if_splits)
    then show ?thesis
      using assms(4) by (simp add: maxAlloc_def unat_eq_nat_uint zless_nat_eq_int_zless del: nat_uint_eq)
  qed simp
  moreover have "sint w \<noteq> 0"
    using calculation by (auto simp: maxAlloc_def)
  ultimately show ?thesis
    using readLen_token [OF assms(1-3)] assms(1) by (auto simp: ReadString_def)
qed

theorem ReadString_negative_length_panics_witness:
  "ReadString (NewRBuffer (Some (FormatUint (2 ^ 63) @ CHR '' '' # ''x''))) = Inl PanicMakeSliceLen"
  using ReadString_negative_length_panics [of "NewRBuffer (Some (FormatUint (2 ^ 63) @ CHR '' '' # ''x''))" "2 ^ 63"]
  by (simp add: NewRBuffer_def)

text \<open>
  C2: \<open>ReadHeader\<close> latches \<open>ErrNotBoost\<close> and returns the zero header for a nil
  reader, for a source without a space-terminated length token (the empty source
  among them), and for a length-prefixed string other than the signature.
\<close>

theorem ReadHeader_NotBoost:
  assumes "r_err r = None"
    and "r_nil r \<or> CHR '' '' \<notin> set (r_r r) \<or>
         (\<exists>s rest. r_r r = FormatUint (word_of_nat (length s)) @ CHR '' '' # s @ CHR '' '' # rest \<and>
                   s \<noteq> [] \<and> length s < 2 ^ 32 \<and> s \<noteq> magicHeaderSignature)"
  shows "\<exists>r'. ReadHeader r = Inr (zeroHdr, r') \<and> r_err r' = Some ErrNotBoost"
proof (cases "r_nil r")
  case True
  then show ?thesis by (simp add: ReadHeader_def)
next
  case nn: False
  show ?thesis
  proof (cases "CHR '' '' \<in> set (r_r r)")
    case False
    then have "readUntilDelimiter r = ([], r\<lparr>r_r := [], r_err := Some ErrUnexpectedEOF\<rparr>)"
      using assms(1) by (intro readUntilDelimiter_nodelim)
    then have "ReadString r = Inr ([], r\<lparr>r_r := [], r_err := Some ErrUnexpectedEOF\<rparr>)"
      using assms(1) by (simp add: ReadString_def readLen_def ReadU32_def ReadU64_def split: arch.split)
    then show ?thesis using nn assms(1) by (simp add: ReadHeader_def)
  next
    case True
    with assms(2) nn obtain s rest where
      src: "r_r r = FormatUint (word_of_nat (length s)) @ CHR '' '' # s @ CHR '' '' # rest"
      and s: "s \<noteq> []" "length s < 2 ^ 32" "s \<noteq> magicHeaderSignature"
      by blast
    have "ReadString r = Inr (s, r\<lparr>r_r := rest\<rparr>)"
      using assms(1) s src by (intro ReadString_token) simp_all
    then show ?thesis using nn assms(1) s by (simp add: ReadHeader_def)
  qed
qed

theorem ReadHeader_NotBoost_witness:
  "\<exists>r'. ReadHeader (NewRBuffer (Some [])) = Inr (zeroHdr, r') \<and> r_err r' = Some ErrNotBoost"
  using ReadHeader_NotBoost [of "NewRBuffer (Some [])"] by (simp add: NewRBuffer_def)

text \<open>
  C3: once the signature matched, a source that ends anywhere inside the header
  fields (any proper prefix of their encoding) makes \<open>ReadHeader\<close> latch
  \<open>ErrInvalidHeader\<close>, never a bare end-of-stream error.
\<close>

theorem ReadHeader_truncated:
  assumes "\<not> r_nil r" and "r_err r = None" and "k < length (header_bytes h)"
    and "r_r r = signature_bytes @ take k (header_bytes h)"
  shows "\<exists>h' r'. ReadHeader r = Inr (h', r') \<and> r_err r' = Some ErrInvalidHeader"
proof -
  let ?r = "r\<lparr>r_r := take k (header_bytes h)\<rparr>"
  have e: "r_err (snd (Header_UnmarshalBoost ?r)) \<noteq> None"
    using take_header_bytes [OF assms(3)] assms(2)
      Header_UnmarshalBoost_no_token [of ?r] Header_UnmarshalBoost_one_token [of ?r]
    by auto
  show ?thesis
    using ReadHeader_after_signature [OF assms(1,2,4)] e
    by (auto split: prod.split)
qed

theorem ReadHeader_truncated_witness:
  "\<exists>h' r'. ReadHeader (NewRBuffer (Some (signature_bytes @ take 1 (header_bytes \<lparr>hdr_Version = 17, hdr_Flags = 0\<rparr>))))
      = Inr (h', r') \<and> r_err r' = Some ErrInvalidHeader"
proof -
  have "1 < length (header_bytes \<lparr>hdr_Version = 17, hdr_Flags = 0\<rparr>)"
    by (simp add: header_bytes_def u64_tok_def delimited_def FormatUint_def fmt_nat.simps)
  then show ?thesis
    using ReadHeader_truncated [of "NewRBuffer (Some (signature_bytes @ take 1 (header_bytes \<lparr>hdr_Version = 17, hdr_Flags = 0\<rparr>)))"]
    by (simp add: NewRBuffer_def)
qed

text \<open>
  C4: the first \<open>ReadTypeDescr\<close> of a type decodes its descriptor, consumes
  exactly its bytes and caches it; a second \<open>ReadTypeDescr\<close> of the same type
  returns the cached descriptor and consumes nothing.
\<close>

theorem ReadTypeDescr_once:
  assumes "r_types r t = None" and "r_err r = None" and "r_r r = td_bytes d @ rest"
  shows "ReadTypeDescr t r = (d, r\<lparr>r_r := rest, r_types := (r_types r)(t \<mapsto> d)\<rparr>) \<and>
         ReadTypeDescr t (r\<lparr>r_r := rest, r_types := (r_types r)(t \<mapsto> d)\<rparr>) =
           (d, r\<lparr>r_r := rest, r_types := (r_types r)(t \<mapsto> d)\<rparr>)"
  using ReadTypeDescr_fresh [OF assms] by (simp add: ReadTypeDescr_def)

theorem ReadTypeDescr_once_witness:
  "ReadTypeDescr TBool (NewRBuffer (Some (td_bytes \<lparr>td_Version = 1, td_Flags = 0\<rparr> @ ''x''))) =
     (\<lparr>td_Version = 1, td_Flags = 0\<rparr>,
      (NewRBuffer (Some (td_bytes \<lparr>td_Version = 1, td_Flags = 0\<rparr> @ ''x'')))
        \<lparr>r_r := ''x'', r_types := [TBool \<mapsto> \<lparr>td_Version = 1, td_Flags = 0\<rparr>]\<rparr>)"
  using ReadTypeDescr_once [of "NewRBuffer (Some (td_bytes \<lparr>td_Version = 1, td_Flags = 0\<rparr> @ ''x''))" TBool]
  by (simp add: NewRBuffer_def)

text \<open>
  C8: \<open>ReadTypeDescr\<close> of an uncached type replaces an error latched before the
  call by \<open>ErrInvalidTypeDescr\<close>: the first error is lost.
\<close>

theorem ReadTypeDescr_replaces_error:
  assumes "r_types r t = None" and "r_err r = Some e"
  shows "snd (ReadTypeDescr t r) = r\<lparr>r_err := Some ErrInvalidTypeDescr\<rparr>"
  using assms by (simp add: ReadTypeDescr_def TypeDescr_UnmarshalBoost_def sticky)

theorem ReadTypeDescr_replaces_error_witness:
  "snd (ReadTypeDescr TBool ((NewRBuffer (Some []))\<lparr>r_err := Some ErrEOF\<rparr>)) =
     (NewRBuffer (Some []))\<lparr>r_err := Some ErrInvalidTypeDescr\<rparr>"
  using ReadTypeDescr_replaces_error [of "(NewRBuffer (Some []))\<lparr>r_err := Some ErrEOF\<rparr>" TBool ErrEOF]
  by (simp add: NewRBuffer_def)

end
