(* ===== verification/WBuffer.thy ===== *)
theory WBuffer
  imports Format
begin

text \<open>
  The primitive writer \<open>WBuffer\<close>.  Its source file is not among the
  repository's sources; it is modelled from the specification (sections 4.1,
  4.3, 4.4): every numeric token is its decimal text and one space, a string is
  its length token, its bytes and one trailing space, lengths are 32-bit under
  the 32-bit profile and 64-bit otherwise, and the type-descriptor registry
  emits a descriptor at the first occurrence of a type only.
\<close>

section \<open>The writer state\<close>

text \<open>
  \<open>w_w\<close> holds the bytes the sink accepted; \<open>w_sink\<close> is \<open>Some e\<close> for a sink
  whose every \<open>Write\<close> fails with \<open>e\<close> (the tests' \<open>errWriter\<close>), \<open>None\<close>
  for one that accepts everything.  \<open>w_err\<close> is the sticky error, \<open>w_types\<close>
  the set of types whose descriptor was written.
\<close>

record wbuffer =
  w_w :: bytes
  w_sink :: "error option"
  w_err :: "error option"
  w_arch :: arch
  w_types :: "rtype set"

definition newWBuffer :: "error option \<Rightarrow> arch \<Rightarrow> wbuffer" where
  "newWBuffer sink a = \<lparr>w_w = [], w_sink = sink, w_err = None, w_arch = a, w_types = {}\<rparr>"

definition Write :: "bytes \<Rightarrow> wbuffer \<Rightarrow> wbuffer" where
  "Write p w =
     (if w_err w \<noteq> None then w
      else (case w_sink w of
              None \<Rightarrow> w\<lparr>w_w := w_w w @ p\<rparr>
            | Some e \<Rightarrow> w\<lparr>w_err := Some e\<rparr>))"

section \<open>Numbers\<close>

definition space :: bytes where
  "space = [CHR '' '']"

definition WriteU64 :: "u64 \<Rightarrow> wbuffer \<Rightarrow> wbuffer" where
  "WriteU64 v w = Write (FormatUint v @ space) w"

definition WriteU32 :: "u32 \<Rightarrow> wbuffer \<Rightarrow> wbuffer" where
  "WriteU32 v w = WriteU64 (ucast v) w"

definition WriteU16 :: "u16 \<Rightarrow> wbuffer \<Rightarrow> wbuffer" where
  "WriteU16 v w = WriteU64 (ucast v) w"

definition WriteU8 :: "u8 \<Rightarrow> wbuffer \<Rightarrow> wbuffer" where
  "WriteU8 v w = WriteU64 (ucast v) w"

definition WriteBool :: "bool \<Rightarrow> wbuffer \<Rightarrow> wbuffer" where
  "WriteBool b w = WriteU8 (if b then 1 else 0) w"

definition WriteI64 :: "i64 \<Rightarrow> wbuffer \<Rightarrow> wbuffer" where
  "WriteI64 v w = Write (FormatInt v @ space) w"

definition WriteI32 :: "i32 \<Rightarrow> wbuffer \<Rightarrow> wbuffer" where
  "WriteI32 v w = WriteI64 (scast v) w"

definition WriteI16 :: "i16 \<Rightarrow> wbuffer \<Rightarrow> wbuffer" where
  "WriteI16 v w = WriteI64 (scast v) w"

definition WriteI8 :: "i8 \<Rightarrow> wbuffer \<Rightarrow> wbuffer" where
  "WriteI8 v w = WriteI64 (scast v) w"

definition WriteF64 :: "float_codec \<Rightarrow> u64 \<Rightarrow> wbuffer \<Rightarrow> wbuffer" where
  "WriteF64 fc v w = Write (FormatFloat64 fc v @ space) w"

definition WriteF32 :: "float_codec \<Rightarrow> u32 \<Rightarrow> wbuffer \<Rightarrow> wbuffer" where
  "WriteF32 fc v w = Write (FormatFloat32 fc v @ space) w"

definition WriteC64 :: "float_codec \<Rightarrow> u32 \<Rightarrow> u32 \<Rightarrow> wbuffer \<Rightarrow> wbuffer" where
  "WriteC64 fc re im w = WriteF32 fc im (WriteF32 fc re w)"

definition WriteC128 :: "float_codec \<Rightarrow> u64 \<Rightarrow> u64 \<Rightarrow> wbuffer \<Rightarrow> wbuffer" where
  "WriteC128 fc re im w = WriteF64 fc im (WriteF64 fc re w)"

section \<open>Lengths and strings\<close>

text \<open>A Go length is a non-negative \<open>int\<close>; the 32-bit profile writes it as a
  \<open>uint32\<close>, which keeps it modulo \<open>2^32\<close>.\<close>

definition writeLen :: "nat \<Rightarrow> wbuffer \<Rightarrow> wbuffer" where
  "writeLen n w =
     (case w_arch w of Arch32 \<Rightarrow> WriteU32 (word_of_nat n) w | _ \<Rightarrow> WriteU64 (word_of_nat n) w)"

definition WriteString :: "string \<Rightarrow> wbuffer \<Rightarrow> wbuffer" where
  "WriteString s w = Write space (Write s (writeLen (length s) w))"

section \<open>Header and type descriptors\<close>

definition WriteHeader :: "header \<Rightarrow> wbuffer \<Rightarrow> wbuffer" where
  "WriteHeader h w = WriteU64 (hdr_Flags h) (WriteU16 (hdr_Version h) w)"

definition TypeDescr_MarshalBoost :: "TypeDescr \<Rightarrow> wbuffer \<Rightarrow> wbuffer" where
  "TypeDescr_MarshalBoost d w = WriteU8 (td_Flags d) (WriteU32 (td_Version d) w)"

definition WriteTypeDescr :: "rtype \<Rightarrow> wbuffer \<Rightarrow> wbuffer" where
  "WriteTypeDescr t w =
     (if t \<in> w_types w then w
      else TypeDescr_MarshalBoost defaultTypeDescr (w\<lparr>w_types := insert t (w_types w)\<rparr>))"

section \<open>Healthy writers\<close>

text \<open>A writer is healthy when no error is latched and its sink accepts
  every write; every method then appends its token bytes, and \<open>wapp\<close> names
  that append.\<close>

definition wgood :: "wbuffer \<Rightarrow> bool" where
  "wgood w \<longleftrightarrow> w_err w = None \<and> w_sink w = None"

definition wapp :: "wbuffer \<Rightarrow> bytes \<Rightarrow> wbuffer" where
  "wapp w b = w\<lparr>w_w := w_w w @ b\<rparr>"

section \<open>Writer lemmas\<close>

lemma wapp_simps [simp]:
  "wgood (wapp w b) = wgood w" "w_arch (wapp w b) = w_arch w" "w_types (wapp w b) = w_types w"
  "w_err (wapp w b) = w_err w" "w_sink (wapp w b) = w_sink w"
  "wapp (wapp w b) c = wapp w (b @ c)" "wapp w [] = w"
  "wgood (w\<lparr>w_types := T\<rparr>) = wgood w" "wapp (w\<lparr>w_types := T\<rparr>) b = (wapp w b)\<lparr>w_types := T\<rparr>"
  by (simp_all add: wapp_def wgood_def)

lemma Write_good [wbuf_simps]: "wgood w \<Longrightarrow> Write p w = wapp w p"
  by (simp add: Write_def wgood_def wapp_def)

text \<open>Every method of a healthy writer appends the token image of
  \<open>Format\<close>.\<close>

lemma writes_good [wbuf_simps]:
  assumes "wgood w"
  shows "WriteU64 v w = wapp w (u64_tok v)"
    and "WriteU32 v32 w = wapp w (u64_tok (ucast v32))"
    and "WriteU16 v16 w = wapp w (u64_tok (ucast v16))"
    and "WriteU8 v8 w = wapp w (u64_tok (ucast v8))"
    and "WriteBool b w = wapp w (u64_tok (if b then 1 else 0))"
    and "WriteI64 i w = wapp w (i64_tok i)"
    and "WriteI32 i32 w = wapp w (i64_tok (scast i32))"
    and "WriteI16 i16 w = wapp w (i64_tok (scast i16))"
    and "WriteI8 i8 w = wapp w (i64_tok (scast i8))"
    and "WriteF64 fc f w = wapp w (delimited (FormatFloat64 fc f))"
    and "WriteF32 fc g w = wapp w (delimited (FormatFloat32 fc g))"
    and "WriteC64 fc g g' w = wapp w (delimited (FormatFloat32 fc g) @ delimited (FormatFloat32 fc g'))"
    and "WriteC128 fc f f' w = wapp w (delimited (FormatFloat64 fc f) @ delimited (FormatFloat64 fc f'))"
    and "writeLen n w = wapp w (len_tok (w_arch w) n)"
    and "WriteString s w = wapp w (str_bytes (w_arch w) s)"
    and "WriteHeader h w = wapp w (header_bytes h)"
    and "TypeDescr_MarshalBoost d w = wapp w (td_bytes d)"
  using assms
  by (simp_all add: Write_good WriteU64_def WriteU32_def WriteU16_def WriteU8_def WriteBool_def
      WriteI64_def WriteI32_def WriteI16_def WriteI8_def WriteF64_def WriteF32_def WriteC64_def
      WriteC128_def writeLen_def WriteString_def WriteHeader_def TypeDescr_MarshalBoost_def
      u64_tok_def i64_tok_def delimited_def space_def len_tok_def str_bytes_def header_bytes_def
      td_bytes_def split: arch.split)

lemma WriteTypeDescr_good [wbuf_simps]:
  "wgood w \<Longrightarrow> WriteTypeDescr t w = (case descr (w_types w) t of (b, T) \<Rightarrow> (wapp w b)\<lparr>w_types := T\<rparr>)"
  by (simp add: WriteTypeDescr_def descr_def writes_good(17) wapp_def wgood_def)

text \<open>A latched error turns every write into a no-op.\<close>

lemma Write_latched [wbuf_simps]: "w_err w \<noteq> None \<Longrightarrow> Write p w = w"
  by (simp add: Write_def)

lemma writes_latched [wbuf_simps]:
  assumes "w_err w \<noteq> None"
  shows "WriteU64 v w = w" "WriteU32 v32 w = w" "WriteU16 v16 w = w" "WriteU8 v8 w = w"
    "WriteBool b w = w" "WriteI64 i w = w" "WriteI32 i32 w = w" "WriteI16 i16 w = w"
    "WriteI8 i8 w = w" "WriteF64 fc f w = w" "WriteF32 fc g w = w" "WriteC64 fc g g' w = w"
    "WriteC128 fc f f' w = w" "writeLen n w = w" "WriteString s w = w" "WriteHeader h w = w"
    "TypeDescr_MarshalBoost d w = w"
  using assms
  by (simp_all add: Write_latched WriteU64_def WriteU32_def WriteU16_def WriteU8_def WriteBool_def
      WriteI64_def WriteI32_def WriteI16_def WriteI8_def WriteF64_def WriteF32_def WriteC64_def
      WriteC128_def writeLen_def WriteString_def WriteHeader_def TypeDescr_MarshalBoost_def
      split: arch.split)

text \<open>The first write to a failing sink latches the sink's error and writes
  nothing.\<close>

lemma Write_failing_sink [wbuf_simps]:
  "w_err w = None \<Longrightarrow> w_sink w = Some e \<Longrightarrow> Write p w = w\<lparr>w_err := Some e\<rparr>"
  by (simp add: Write_def)

lemma WriteString_failing_sink:
  "w_err w = None \<Longrightarrow> w_sink w = Some e \<Longrightarrow> WriteString s w = w\<lparr>w_err := Some e\<rparr>"
  by (cases "w_arch w") (simp_all add: WriteString_def writeLen_def WriteU64_def WriteU32_def
      Write_failing_sink Write_latched)

end
