(* ===== verification/Encoder.thy ===== *)
theory Encoder
  imports WBuffer
begin

text \<open>
  The encoder of \<open>src/txtser/encoder.go\<close>: the \<open>Encoder\<close> struct, the lazy
  one-time header write and the dispatch \<open>Encode\<close>, which walks a value and
  drives the writer.  \<open>Encode\<close> returns \<open>Inl\<close> of a panic or \<open>Inr\<close> of the
  error it returns and the updated encoder.
\<close>

section \<open>State\<close>

text \<open>\<open>Encoder\<close> (lines 14-19): the writer, the header and the \<open>sync.Once\<close>
  guarding the header write, as the flag \<open>enc_hdr\<close> (set once done).\<close>

record encoder =
  enc_w :: wbuffer
  enc_Header :: header
  enc_hdr :: bool

definition newEncoder :: "error option \<Rightarrow> arch \<Rightarrow> encoder" where
  "newEncoder sink a = \<lparr>enc_w = newWBuffer sink a, enc_Header = zeroHdr, enc_hdr = False\<rparr>"

definition NewEncoder :: "error option \<Rightarrow> encoder" where
  "NewEncoder sink = newEncoder sink Arch64"

section \<open>Header\<close>

text \<open>\<open>writeHeader\<close> (lines 34-41): a zero header is replaced by the profile's
  default, then the signature string and the header are written.\<close>

definition writeHeader :: "encoder \<Rightarrow> encoder" where
  "writeHeader enc =
     (let enc = (if enc_Header enc = zeroHdr
                 then enc\<lparr>enc_Header := arch_Header (w_arch (enc_w enc))\<rparr> else enc)
      in enc\<lparr>enc_w := WriteHeader (enc_Header enc) (WriteString magicHeaderSignature (enc_w enc))\<rparr>)"

definition hdr_Do :: "encoder \<Rightarrow> encoder" where
  "hdr_Do enc = (if enc_hdr enc then enc else (writeHeader enc)\<lparr>enc_hdr := True\<rparr>)"

section \<open>Custom marshalers\<close>

text \<open>
  The writes a \<open>MarshalBoost\<close> method makes: the type descriptor it names, then
  its primitive fields, each through the writer's method for its kind; it
  returns \<open>w.Err()\<close>.
\<close>

fun write_prim :: "float_codec \<Rightarrow> val \<Rightarrow> wbuffer \<Rightarrow> wbuffer" where
  "write_prim fc (VBool b) w = WriteBool b w"
| "write_prim fc (VInt8 x) w = WriteI8 x w"
| "write_prim fc (VInt16 x) w = WriteI16 x w"
| "write_prim fc (VInt32 x) w = WriteI32 x w"
| "write_prim fc (VInt64 x) w = WriteI64 x w"
| "write_prim fc (VUint8 x) w = WriteU8 x w"
| "write_prim fc (VUint16 x) w = WriteU16 x w"
| "write_prim fc (VUint32 x) w = WriteU32 x w"
| "write_prim fc (VUint64 x) w = WriteU64 x w"
| "write_prim fc (VFloat32 x) w = WriteF32 fc x w"
| "write_prim fc (VFloat64 x) w = WriteF64 fc x w"
| "write_prim fc (VComplex64 x y) w = WriteC64 fc x y w"
| "write_prim fc (VComplex128 x y) w = WriteC128 fc x y w"
| "write_prim fc (VString s) w = WriteString s w"
| "write_prim fc _ w = w"

definition MarshalBoost :: "float_codec \<Rightarrow> rtype option \<Rightarrow> val list \<Rightarrow> wbuffer \<Rightarrow> error option \<times> wbuffer" where
  "MarshalBoost fc d fs w =
     (let w = (case d of None \<Rightarrow> w | Some t \<Rightarrow> WriteTypeDescr t w);
          w = fold (write_prim fc) fs w
      in (w_err w, w))"

text \<open>
  \<open>v.(Marshaler)\<close>: a custom value, or a pointer to one (the pointer's method
  set holds the value's methods; calling them through a nil pointer panics).
\<close>

fun marshaler :: "val \<Rightarrow> (panic + rtype option \<times> val list) option" where
  "marshaler (VCustom n d fs) = Some (Inr (d, fs))"
| "marshaler (VPtr t (Some (VCustom n d fs))) = Some (Inr (d, fs))"
| "marshaler (VPtr (TCustom n d ts) None) = Some (Inl PanicNilDeref)"
| "marshaler v = None"

section \<open>Encode\<close>

text \<open>
  \<open>Encode\<close> (lines 44-129).  Each call runs the header guard, returns a latched
  error at once, hands a marshaler its writer, and otherwise dispatches on the
  kind of the indirected value (\<open>encode_kind\<close>).  The loops over struct fields,
  slice and array elements and map entries call \<open>Encode\<close> and discard what it
  returns; only a panic stops them.  Every case but the default returns the
  writer's error; the default returns \<open>ErrTypeNotSupported\<close> without latching it.
\<close>

function (sequential) Encode :: "float_codec \<Rightarrow> val \<Rightarrow> encoder \<Rightarrow> panic + error option \<times> encoder"
and encode_kind :: "float_codec \<Rightarrow> val \<Rightarrow> encoder \<Rightarrow> panic + error option \<times> encoder"
and encode_fields :: "float_codec \<Rightarrow> (string \<times> val) list \<Rightarrow> encoder \<Rightarrow> panic + encoder"
and encode_elems :: "float_codec \<Rightarrow> val list \<Rightarrow> encoder \<Rightarrow> panic + encoder"
and encode_entries :: "float_codec \<Rightarrow> (val \<times> val) list \<Rightarrow> encoder \<Rightarrow> panic + encoder" where
  "Encode fc v enc =
     (let enc = hdr_Do enc
      in if w_err (enc_w enc) \<noteq> None then Inr (w_err (enc_w enc), enc)
         else (case marshaler v of
                 Some (Inl p) \<Rightarrow> Inl p
               | Some (Inr (d, fs)) \<Rightarrow>
                   (case MarshalBoost fc d fs (enc_w enc) of (e, w) \<Rightarrow> Inr (e, enc\<lparr>enc_w := w\<rparr>))
               | None \<Rightarrow> encode_kind fc (indirect v) enc))"
| "encode_kind fc x enc =
     (let w = enc_w enc;
          done = (\<lambda>w. Inr (w_err w, enc\<lparr>enc_w := w\<rparr>));
          loop = (\<lambda>r. case r of Inl p \<Rightarrow> Inl p | Inr enc \<Rightarrow> Inr (w_err (enc_w enc), enc))
      in case x of
        VBool b \<Rightarrow> done (WriteBool b w)
      | VInt8 v \<Rightarrow> done (WriteI8 v w)
      | VInt16 v \<Rightarrow> done (WriteI16 v w)
      | VInt32 v \<Rightarrow> done (WriteI32 v w)
      | VInt64 v \<Rightarrow> done (WriteI64 v w)
      | VUint8 v \<Rightarrow> done (WriteU8 v w)
      | VUint16 v \<Rightarrow> done (WriteU16 v w)
      | VUint32 v \<Rightarrow> done (WriteU32 v w)
      | VUint64 v \<Rightarrow> done (WriteU64 v w)
      | VFloat32 v \<Rightarrow> done (WriteF32 fc v w)
      | VFloat64 v \<Rightarrow> done (WriteF64 fc v w)
      | VComplex64 a b \<Rightarrow> done (WriteC64 fc a b w)
      | VComplex128 a b \<Rightarrow> done (WriteC128 fc a b w)
      | VString s \<Rightarrow> done (WriteString s w)
      | VStruct n fs \<Rightarrow>
          loop (encode_fields fc fs (enc\<lparr>enc_w := WriteTypeDescr (type_of x) w\<rparr>))
      | VSlice et vs \<Rightarrow>
          (let w = writeLen (length vs) (WriteTypeDescr (TSlice et) w);
               w = (if \<not> isCxxBoostBuiltin et then WriteU32 0 w else w)
           in loop (encode_elems fc vs (enc\<lparr>enc_w := w\<rparr>)))
      | VArray et vs \<Rightarrow>
          loop (encode_elems fc vs
                  (enc\<lparr>enc_w := writeLen (length vs) (WriteTypeDescr (type_of x) w)\<rparr>))
      | VMap kt vt kvs \<Rightarrow>
          (let w = WriteU8 0 (WriteU64 0 (writeLen (length kvs) (WriteTypeDescr (TMap kt vt) w)))
           in loop (encode_entries fc kvs (enc\<lparr>enc_w := w\<rparr>)))
      | _ \<Rightarrow> Inr (Some ErrTypeNotSupported, enc))"
| "encode_fields fc [] enc = Inr enc"
| "encode_fields fc ((f, v) # fs) enc =
     (if \<not> exported f then Inl (PanicUnexportedField f)
      else (case Encode fc v enc of Inl p \<Rightarrow> Inl p | Inr (_, enc) \<Rightarrow> encode_fields fc fs enc))"
| "encode_elems fc [] enc = Inr enc"
| "encode_elems fc (v # vs) enc =
     (case Encode fc v enc of Inl p \<Rightarrow> Inl p | Inr (_, enc) \<Rightarrow> encode_elems fc vs enc)"
| "encode_entries fc [] enc = Inr enc"
| "encode_entries fc ((k, v) # kvs) enc =
     (case Encode fc k enc of
        Inl p \<Rightarrow> Inl p
      | Inr (_, enc) \<Rightarrow>
          (case Encode fc v enc of Inl p \<Rightarrow> Inl p | Inr (_, enc) \<Rightarrow> encode_entries fc kvs enc))"
  by pat_completeness auto
termination
  by (relation "measure (\<lambda>x. case x of
        Inl (Inl (_, v, _)) \<Rightarrow> 4 * size v + 3
      | Inl (Inr (_, v, _)) \<Rightarrow> 4 * size v + 2
      | Inr (Inl (_, fs, _)) \<Rightarrow> 4 * size (VStruct [] fs) + 1
      | Inr (Inr (Inl (_, vs, _))) \<Rightarrow> 4 * size (VSlice TBool vs) + 1
      | Inr (Inr (Inr (_, kvs, _))) \<Rightarrow> 4 * size (VMap TBool TBool kvs) + 1)")
     (auto simp: le_imp_less_Suc size_indirect)

section \<open>Healthy encoders\<close>

text \<open>An encoder is healthy once its header is written and its writer is
  healthy; \<open>eapp\<close> appends bytes to its writer and installs the set of
  described types, the shape of the abstract image \<open>wire\<close>.\<close>

definition eok :: "encoder \<Rightarrow> bool" where
  "eok enc \<longleftrightarrow> wgood (enc_w enc) \<and> enc_hdr enc"

definition eapp :: "encoder \<Rightarrow> bytes \<times> rtype set \<Rightarrow> encoder" where
  "eapp enc bT = enc\<lparr>enc_w := (wapp (enc_w enc) (fst bT))\<lparr>w_types := snd bT\<rparr>\<rparr>"

text \<open>Fixtures: the \<open>animal\<close> struct of the decoder tests (\<open>decoder_test.go\<close>,
  lines 188-192) with the values of the specification's scenario, and an
  encoder of the 64-bit profile whose header is written.\<close>

abbreviation animal :: val where
  "animal \<equiv> VStruct ''animal'' [(''Name'', VString ''pet''), (''Legs'', VInt16 4), (''Tails'', VInt8 1)]"

abbreviation enc64 :: encoder where
  "enc64 \<equiv> hdr_Do (newEncoder None Arch64)"

section \<open>Encoder lemmas\<close>

lemma write_prim_good [wbuf_simps]:
  "wgood w \<Longrightarrow> is_prim v \<Longrightarrow> write_prim fc v w = wapp w (prim_bytes fc (w_arch w) v)"
  by (cases v) (simp_all add: writes_good)

lemma fold_write_prim_good:
  "wgood w \<Longrightarrow> \<forall>v \<in> set vs. is_prim v \<Longrightarrow>
   fold (write_prim fc) vs w = wapp w (concat (map (prim_bytes fc (w_arch w)) vs))"
  by (induction vs arbitrary: w) (simp_all add: write_prim_good)

lemma eapp_simps [simp]:
  "eok (eapp enc bT) = eok enc"
  "w_arch (enc_w (eapp enc bT)) = w_arch (enc_w enc)"
  "w_types (enc_w (eapp enc bT)) = snd bT"
  "w_err (enc_w (eapp enc bT)) = w_err (enc_w enc)"
  "eapp (eapp enc (b, T)) (c, U) = eapp enc (b @ c, U)"
  by (simp_all add: eapp_def eok_def wapp_def wgood_def)

lemma hdr_Do_eok [simp]: "eok enc \<Longrightarrow> hdr_Do enc = enc"
  by (simp add: hdr_Do_def eok_def)

lemma MarshalBoost_good:
  "wgood w \<Longrightarrow> \<forall>x \<in> set fs. is_prim x \<Longrightarrow>
   MarshalBoost fc d fs w =
     (case (case d of None \<Rightarrow> ([], w_types w) | Some t \<Rightarrow> descr (w_types w) t) of
        (b, T) \<Rightarrow> (None, (wapp w (b @ concat (map (prim_bytes fc (w_arch w)) fs)))\<lparr>w_types := T\<rparr>))"
  by (cases d) (auto simp: MarshalBoost_def WriteTypeDescr_good fold_write_prim_good wgood_def
      wapp_def split: prod.split)

lemma marshaler_wire:
  "marshaler v = Some (Inr (d, fs)) \<Longrightarrow> encodable v \<Longrightarrow>
   (\<forall>x \<in> set fs. is_prim x) \<and>
   wire fc a T v = (case (case d of None \<Rightarrow> ([], T) | Some t \<Rightarrow> descr T t) of
                      (b, T) \<Rightarrow> (b @ concat (map (prim_bytes fc a) fs), T))"
  by (cases v rule: marshaler.cases) auto

lemma marshaler_none_indirect:
  "marshaler v = None \<Longrightarrow> encodable v \<Longrightarrow>
   encodable (indirect v) \<and> \<not> is_ptr (indirect v) \<and> marshaler (indirect v) = None \<and>
   wire fc a T (indirect v) = wire fc a T v"
  by (cases v rule: indirect.cases) (auto elim: marshaler.elims)

lemma marshaler_Inl: "marshaler v = Some (Inl p) \<Longrightarrow> \<not> encodable v"
  by (cases v rule: marshaler.cases) auto

lemma Encode_refines_wire_all:
  "eok enc \<Longrightarrow> encodable v \<Longrightarrow>
     Encode fc v enc = Inr (None, eapp enc (wire fc (w_arch (enc_w enc)) (w_types (enc_w enc)) v))"
  "eok enc \<Longrightarrow> encodable x \<Longrightarrow> \<not> is_ptr x \<Longrightarrow> marshaler x = None \<Longrightarrow>
     encode_kind fc x enc = Inr (None, eapp enc (wire fc (w_arch (enc_w enc)) (w_types (enc_w enc)) x))"
  "eok enc \<Longrightarrow> \<forall>(f, v) \<in> set fs. exported f \<and> encodable v \<Longrightarrow>
     encode_fields fc fs enc = Inr (eapp enc (wire_fields fc (w_arch (enc_w enc)) (w_types (enc_w enc)) fs))"
  "eok enc \<Longrightarrow> \<forall>v \<in> set vs. encodable v \<Longrightarrow>
     encode_elems fc vs enc = Inr (eapp enc (wire_list fc (w_arch (enc_w enc)) (w_types (enc_w enc)) vs))"
  "eok enc \<Longrightarrow> \<forall>(k, v) \<in> set kvs. encodable k \<and> encodable v \<Longrightarrow>
     encode_entries fc kvs enc = Inr (eapp enc (wire_entries fc (w_arch (enc_w enc)) (w_types (enc_w enc)) kvs))"
proof (induction fc v enc and fc x enc and fc fs enc and fc vs enc and fc kvs enc
       rule: Encode_encode_kind_encode_fields_encode_elems_encode_entries.induct)
  case (1 fc v enc)
  have g: "wgood (enc_w enc)" and e: "w_err (enc_w enc) = None"
    using "1.prems"(1) by (simp_all add: eok_def wgood_def)
  show ?case
  proof (cases "marshaler v")
    case None
    with "1.prems" marshaler_none_indirect [OF None "1.prems"(2)] "1.IH" e show ?thesis
      by simp
  next
    case (Some m)
    show ?thesis
    proof (cases m)
      case (Inl p)
      with Some marshaler_Inl "1.prems"(2) show ?thesis by blast
    next
      case (Inr dfs)
      obtain d fs where m: "m = Inr (d, fs)" using Inr by (cases dfs) auto
      note mw = marshaler_wire [OF Some [unfolded m] "1.prems"(2)]
      show ?thesis
        using "1.prems"(1) e g Some m mw
        by (cases d) (auto simp: MarshalBoost_good eapp_def descr_def split: prod.split)
    qed
  qed
next
  case (2 fc x enc)
  have g: "wgood (enc_w enc)"
    using "2.prems"(1) by (simp add: eok_def)
  let ?a = "w_arch (enc_w enc)" and ?T = "w_types (enc_w enc)"
  show ?case
  proof (cases x)
    case (VStruct n fs)
    obtain d T' where dT: "descr ?T (type_of x) = (d, T')" by (cases "descr ?T (type_of x)")
    have w1: "enc\<lparr>enc_w := WriteTypeDescr (type_of x) (enc_w enc)\<rparr> = eapp enc (d, T')"
      using g dT by (simp add: WriteTypeDescr_good eapp_def)
    have f: "\<forall>(f, v) \<in> set fs. exported f \<and> encodable v"
      using "2.prems"(2) VStruct by simp
    have "encode_fields fc fs (eapp enc (d, T')) = Inr (eapp (eapp enc (d, T')) (wire_fields fc ?a T' fs))"
      using "2.IH"(1) [OF refl refl refl VStruct] w1 f "2.prems"(1) by simp
    then show ?thesis
      using VStruct w1 dT g by (simp add: wgood_def split: prod.split)
  next
    case (VSlice et vs)
    obtain d T' where dT: "descr ?T (TSlice et) = (d, T')" by (cases "descr ?T (TSlice et)")
    let ?b = "d @ len_tok ?a (length vs) @ (if isCxxBoostBuiltin et then [] else u64_tok 0)"
    have w1: "enc\<lparr>enc_w := (if \<not> isCxxBoostBuiltin et
                             then WriteU32 0 (writeLen (length vs) (WriteTypeDescr (TSlice et) (enc_w enc)))
                             else writeLen (length vs) (WriteTypeDescr (TSlice et) (enc_w enc)))\<rparr>
              = eapp enc (?b, T')"
      using g dT by (simp add: WriteTypeDescr_good writes_good eapp_def)
    have f: "\<forall>v \<in> set vs. encodable v"
      using "2.prems"(2) VSlice by simp
    have "encode_elems fc vs (eapp enc (?b, T')) = Inr (eapp (eapp enc (?b, T')) (wire_list fc ?a T' vs))"
      using "2.IH"(2) [OF refl refl refl VSlice refl refl] w1 f "2.prems"(1) by simp
    then show ?thesis
      using VSlice w1 dT g by (simp add: wgood_def split: prod.split)
  next
    case (VArray et vs)
    obtain d T' where dT: "descr ?T (type_of x) = (d, T')" by (cases "descr ?T (type_of x)")
    have w1: "enc\<lparr>enc_w := writeLen (length vs) (WriteTypeDescr (type_of x) (enc_w enc))\<rparr>
              = eapp enc (d @ len_tok ?a (length vs), T')"
      using g dT by (simp add: WriteTypeDescr_good writes_good eapp_def)
    have f: "\<forall>v \<in> set vs. encodable v"
      using "2.prems"(2) VArray by simp
    have "encode_elems fc vs (eapp enc (d @ len_tok ?a (length vs), T')) =
          Inr (eapp (eapp enc (d @ len_tok ?a (length vs), T')) (wire_list fc ?a T' vs))"
      using "2.IH"(3) [OF refl refl refl VArray] w1 f "2.prems"(1) by simp
    then show ?thesis
      using VArray w1 dT g by (simp add: wgood_def split: prod.split)
  next
    case (VMap kt vt kvs)
    obtain d T' where dT: "descr ?T (TMap kt vt) = (d, T')" by (cases "descr ?T (TMap kt vt)")
    let ?b = "d @ len_tok ?a (length kvs) @ u64_tok 0 @ u64_tok 0"
    have w1: "enc\<lparr>enc_w := WriteU8 0 (WriteU64 0 (writeLen (length kvs) (WriteTypeDescr (TMap kt vt) (enc_w enc))))\<rparr>
              = eapp enc (?b, T')"
      using g dT by (simp add: WriteTypeDescr_good writes_good eapp_def)
    have f: "\<forall>(k, v) \<in> set kvs. encodable k \<and> encodable v"
      using "2.prems"(2) VMap by simp
    have "encode_entries fc kvs (eapp enc (?b, T')) = Inr (eapp (eapp enc (?b, T')) (wire_entries fc ?a T' kvs))"
      using "2.IH"(4) [OF refl refl refl VMap refl] w1 f "2.prems"(1) by simp
    then show ?thesis
      using VMap w1 dT g by (simp add: wgood_def split: prod.split)
  qed (use g "2.prems" in \<open>simp_all add: writes_good eapp_def wapp_def wgood_def Let_def\<close>)
next
  case (3 fc enc)
  then show ?case by (simp add: eapp_def)
next
  case (4 fc f v fs enc)
  let ?a = "w_arch (enc_w enc)" and ?T = "w_types (enc_w enc)"
  obtain b T' where w: "wire fc ?a ?T v = (b, T')" by (cases "wire fc ?a ?T v")
  have ex: "exported f" "encodable v" and rest: "\<forall>(f, v) \<in> set fs. exported f \<and> encodable v"
    using "4.prems"(2) by auto
  have e: "Encode fc v enc = Inr (None, eapp enc (b, T'))"
    using "4.IH"(1) ex "4.prems"(1) w by simp
  have r: "encode_fields fc fs (eapp enc (b, T')) = Inr (eapp (eapp enc (b, T')) (wire_fields fc ?a T' fs))"
    using "4.IH"(2) [OF _ e refl] ex(1) "4.prems"(1) rest by simp
  show ?case using e r w ex(1) by (simp split: prod.split)
next
  case (5 fc enc)
  then show ?case by (simp add: eapp_def)
next
  case (6 fc v vs enc)
  let ?a = "w_arch (enc_w enc)" and ?T = "w_types (enc_w enc)"
  obtain b T' where w: "wire fc ?a ?T v = (b, T')" by (cases "wire fc ?a ?T v")
  have e: "Encode fc v enc = Inr (None, eapp enc (b, T'))"
    using "6.IH"(1) "6.prems" w by simp
  have r: "encode_elems fc vs (eapp enc (b, T')) = Inr (eapp (eapp enc (b, T')) (wire_list fc ?a T' vs))"
    using "6.IH"(2) [OF e refl] "6.prems" by simp
  show ?case using e r w by (simp split: prod.split)
next
  case (7 fc enc)
  then show ?case by (simp add: eapp_def)
next
  case (8 fc k v kvs enc)
  let ?a = "w_arch (enc_w enc)" and ?T = "w_types (enc_w enc)"
  obtain b T' where wk: "wire fc ?a ?T k = (b, T')" by (cases "wire fc ?a ?T k")
  obtain b' T'' where wv: "wire fc ?a T' v = (b', T'')" by (cases "wire fc ?a T' v")
  have ek: "Encode fc k enc = Inr (None, eapp enc (b, T'))"
    using "8.IH"(1) "8.prems" wk by simp
  have ev: "Encode fc v (eapp enc (b, T')) = Inr (None, eapp (eapp enc (b, T')) (b', T''))"
    using "8.IH"(2) [OF ek refl] "8.prems" wv by simp
  have r: "encode_entries fc kvs (eapp enc (b @ b', T'')) =
           Inr (eapp (eapp enc (b @ b', T'')) (wire_entries fc ?a T'' kvs))"
    using "8.IH"(3) [OF ek refl ev refl] "8.prems" by simp
  show ?case using ek ev r wk wv by (simp split: prod.split)
qed

lemma exported_names:
  "exported ''Name''" "exported ''Legs''" "exported ''Tails''" "exported ''X''" "\<not> exported ''legs''"
  by code_simp+

lemma hdr_Do_idem [simp]: "hdr_Do (hdr_Do enc) = hdr_Do enc"
  by (simp add: hdr_Do_def)

lemma Encode_hdr_Do: "Encode fc v (hdr_Do enc) = Encode fc v enc"
  by (simp only: Encode.simps hdr_Do_idem)

lemma hdr_Do_fresh:
  "hdr_Do (newEncoder None a) =
     \<lparr>enc_w = wapp (newWBuffer None a) (str_bytes a magicHeaderSignature @ header_bytes (arch_Header a)),
      enc_Header = arch_Header a, enc_hdr = True\<rparr>"
  "eok (hdr_Do (newEncoder None a))"
  by (simp_all add: hdr_Do_def writeHeader_def newEncoder_def zeroHdr_def arch_Header_def
      writes_good eok_def wgood_def newWBuffer_def wapp_def)

lemma hdr_Do_fresh_fields [simp]:
  "w_arch (enc_w (hdr_Do (newEncoder None a))) = a" "w_types (enc_w (hdr_Do (newEncoder None a))) = {}"
  by (simp_all add: hdr_Do_fresh(1) newWBuffer_def)

lemma Encode_fresh:
  "encodable v \<Longrightarrow>
   Encode fc v (newEncoder None a) = Inr (None, eapp (hdr_Do (newEncoder None a)) (wire fc a {} v))"
  using Encode_hdr_Do [of fc v "newEncoder None a"] Encode_refines_wire_all(1) [OF hdr_Do_fresh(2), of v fc]
  by (simp only: hdr_Do_fresh_fields)

lemma eok_WriteTypeDescr [simp]: "eok enc \<Longrightarrow> eok (enc\<lparr>enc_w := WriteTypeDescr t (enc_w enc)\<rparr>)"
  by (simp add: eok_def WriteTypeDescr_good split: prod.split)

lemma encode_fields_append:
  "encode_fields fc (fs @ gs) enc =
     (case encode_fields fc fs enc of Inl p \<Rightarrow> Inl p | Inr enc \<Rightarrow> encode_fields fc gs enc)"
  by (induction fs arbitrary: enc) (auto simp del: Encode.simps split: sum.split prod.split)


section \<open>Properties of the encoder\<close>

text \<open>
  C10: refinement of the format.  On an encoder whose header is written and whose
  writer is healthy, \<open>Encode\<close> of any encodable value returns no error and
  appends exactly the abstract image \<open>wire\<close> of the value, under the writer's
  profile and set of described types, and installs the grown set.
\<close>

theorem Encode_refines_wire:
  assumes "eok enc" and "encodable v"
  shows "Encode fc v enc = Inr (None, eapp enc (wire fc (w_arch (enc_w enc)) (w_types (enc_w enc)) v))"
  by (rule Encode_refines_wire_all(1) [OF assms])

theorem Encode_refines_wire_witness:
  "\<forall>fc. eok enc64 \<and> encodable animal \<and>
     Encode fc animal enc64 = Inr (None, eapp enc64 (wire fc Arch64 {} animal))"
  using Encode_refines_wire [of enc64 animal] by (simp add: hdr_Do_fresh(2) exported_names del: Encode.simps)

text \<open>
  C11: the stream a fresh encoder writes for two encodable values is the signature
  string and the profile's default header, written once, followed by the image of
  the first value and the image of the second under the types the first described.
\<close>

theorem Encode_stream:
  assumes "encodable v1" and "encodable v2"
  shows "\<exists>enc1 enc2. Encode fc v1 (newEncoder None a) = Inr (None, enc1) \<and>
           Encode fc v2 enc1 = Inr (None, enc2) \<and>
           w_w (enc_w enc2) = str_bytes a magicHeaderSignature @ header_bytes (arch_Header a) @
             fst (wire fc a {} v1) @ fst (wire fc a (snd (wire fc a {} v1)) v2)"
proof -
  let ?e1 = "eapp (hdr_Do (newEncoder None a)) (wire fc a {} v1)"
  have "eok ?e1"
    by (simp add: hdr_Do_fresh(2))
  from Encode_refines_wire_all(1) [OF this assms(2), of fc]
  show ?thesis
    using Encode_fresh [OF assms(1), of fc a]
    by (simp add: hdr_Do_fresh(1) eapp_def wapp_def newWBuffer_def del: Encode.simps)
qed

theorem Encode_stream_witness:
  "\<forall>fc. \<exists>enc1 enc2. Encode fc animal (newEncoder None Arch64) = Inr (None, enc1) \<and>
     Encode fc animal enc1 = Inr (None, enc2) \<and>
     w_w (enc_w enc2) = ''22 serialization::archive 17 0 0 0 3 pet 4 1 3 pet 4 1 ''"
proof
  fix fc :: float_codec
  have "FormatUint 22 = ''22''" "FormatUint 17 = ''17''" "FormatUint 0 = ''0''" "FormatUint 3 = ''3''"
       "FormatInt 4 = ''4''" "FormatInt 1 = ''1''"
    by code_simp+
  then show "\<exists>enc1 enc2. Encode fc animal (newEncoder None Arch64) = Inr (None, enc1) \<and>
     Encode fc animal enc1 = Inr (None, enc2) \<and>
     w_w (enc_w enc2) = ''22 serialization::archive 17 0 0 0 3 pet 4 1 3 pet 4 1 ''"
    using Encode_stream [of animal animal fc Arch64]
    by (simp add: descr_def td_bytes_def defaultTypeDescr_def u64_tok_def i64_tok_def delimited_def
        str_bytes_def len_tok_def header_bytes_def arch_Header_def magicHeaderSignature_def
        exported_names del: Encode.simps)
qed

text \<open>
  C12: with a sink that rejects every write, the first \<open>Encode\<close> latches the
  sink's error while writing the header, writes nothing and returns that error; every
  later \<open>Encode\<close> returns the same error and leaves the encoder unchanged.
\<close>

theorem Encode_failing_sink:
  "let E = \<lparr>enc_w = (newWBuffer (Some e) a)\<lparr>w_err := Some e\<rparr>, enc_Header = arch_Header a, enc_hdr = True\<rparr>
   in Encode fc v (newEncoder (Some e) a) = Inr (Some e, E) \<and> Encode fc v' E = Inr (Some e, E)"
proof -
  define E where "E = \<lparr>enc_w = (newWBuffer (Some e) a)\<lparr>w_err := Some e\<rparr>, enc_Header = arch_Header a, enc_hdr = True\<rparr>"
  have h: "hdr_Do (newEncoder (Some e) a) = E"
    unfolding E_def
    by (simp add: hdr_Do_def writeHeader_def newEncoder_def zeroHdr_def arch_Header_def newWBuffer_def
        WriteString_failing_sink writes_latched)
  have l: "Encode fc u E = Inr (Some e, E)" for u
    unfolding E_def by (simp add: hdr_Do_def newWBuffer_def)
  have "Encode fc v (newEncoder (Some e) a) = Inr (Some e, E)"
    using Encode_hdr_Do [of fc v "newEncoder (Some e) a"] h l by (simp del: Encode.simps)
  with l show ?thesis
    unfolding E_def [symmetric] Let_def by (simp del: Encode.simps)
qed

text \<open>
  C13: a value of an unsupported kind is rejected with \<open>ErrTypeNotSupported\<close>
  at top level, but as a struct field the error is dropped: the struct encodes
  its descriptor, skips the field and returns no error.
\<close>

theorem Encode_unsupported_dropped:
  assumes "eok enc" and "exported f"
  shows "Encode fc (VOther k) enc = Inr (Some ErrTypeNotSupported, enc) \<and>
         Encode fc (VStruct n [(f, VOther k)]) enc =
           Inr (None, enc\<lparr>enc_w := WriteTypeDescr (TStruct n [(f, TOther k)]) (enc_w enc)\<rparr>)"
proof -
  let ?e1 = "enc\<lparr>enc_w := WriteTypeDescr (TStruct n [(f, TOther k)]) (enc_w enc)\<rparr>"
  have o: "Encode fc (VOther k) e = Inr (Some ErrTypeNotSupported, e)" if "eok e" for e
    using that by (simp add: eok_def wgood_def)
  have s: "Encode fc (VStruct n [(f, VOther k)]) enc =
      (case encode_fields fc [(f, VOther k)] ?e1 of Inl p \<Rightarrow> Inl p | Inr e \<Rightarrow> Inr (w_err (enc_w e), e))"
    using assms(1) by (simp add: eok_def wgood_def del: encode_fields.simps)
  have f: "encode_fields fc [(f, VOther k)] ?e1 = Inr ?e1"
    using assms o [of ?e1] by (simp del: Encode.simps)
  have "w_err (enc_w ?e1) = None"
    using assms(1) by (simp add: eok_def WriteTypeDescr_good wgood_def split: prod.split)
  then show ?thesis
    using s f o [OF assms(1)] by simp
qed

theorem Encode_unsupported_dropped_witness:
  "\<forall>fc. Encode fc (VOther ''int'') enc64 = Inr (Some ErrTypeNotSupported, enc64) \<and>
     Encode fc (VStruct ''T'' [(''X'', VOther ''int'')]) enc64 =
       Inr (None, enc64\<lparr>enc_w := WriteTypeDescr (TStruct ''T'' [(''X'', TOther ''int'')]) (enc_w enc64)\<rparr>)"
  using Encode_unsupported_dropped [OF hdr_Do_fresh(2), of "''X''"] by (simp add: exported_names del: Encode.simps)

text \<open>
  C14: a struct whose fields up to an unexported one are exported and encodable
  makes \<open>Encode\<close> panic at that field (\<open>reflect.Value.Interface\<close>).
\<close>

theorem Encode_unexported_field_panics:
  assumes "eok enc" and "\<forall>(f, v) \<in> set fs. exported f \<and> encodable v" and "\<not> exported g"
  shows "Encode fc (VStruct n (fs @ (g, x) # gs)) enc = Inl (PanicUnexportedField g)"
proof -
  let ?e1 = "enc\<lparr>enc_w := WriteTypeDescr (type_of (VStruct n (fs @ (g, x) # gs))) (enc_w enc)\<rparr>"
  have "eok ?e1"
    using assms(1) by (rule eok_WriteTypeDescr)
  from Encode_refines_wire_all(3) [OF this assms(2)]
  have "encode_fields fc (fs @ (g, x) # gs) ?e1 = Inl (PanicUnexportedField g)"
    using assms(3) by (simp add: encode_fields_append del: Encode.simps type_of.simps)
  then show ?thesis
    using assms(1) by (simp add: eok_def wgood_def del: encode_fields.simps type_of.simps)
qed

theorem Encode_unexported_field_panics_witness:
  "\<forall>fc. Encode fc (VStruct ''manimal'' ([(''Name'', VString ''pet'')] @ (''legs'', VInt16 4) # [(''tails'', VInt8 1)]))
     enc64 = Inl (PanicUnexportedField ''legs'')"
  using Encode_unexported_field_panics [OF hdr_Do_fresh(2), of "[(''Name'', VString ''pet'')]" "''legs''"]
  by (simp add: exported_names del: Encode.simps)

text \<open>
  C15: encoding the same composite value twice, when its type is not yet described,
  writes the type descriptor the first time only: the second image is no longer
  than the first one without its descriptor.
\<close>

theorem Encode_elides_descriptor:
  assumes "eok enc" and "encodable v" and "composite v" and "type_of v \<notin> w_types (enc_w enc)"
  shows "\<exists>enc1 enc2 b1 b2. Encode fc v enc = Inr (None, enc1) \<and> Encode fc v enc1 = Inr (None, enc2) \<and>
           w_w (enc_w enc1) = w_w (enc_w enc) @ td_bytes defaultTypeDescr @ b1 \<and>
           w_w (enc_w enc2) = w_w (enc_w enc1) @ b2 \<and> length b2 \<le> length b1"
proof -
  let ?a = "w_arch (enc_w enc)" and ?T = "w_types (enc_w enc)"
  obtain b where b: "fst (wire fc ?a ?T v) = td_bytes defaultTypeDescr @ b"
    and l: "length (fst (wire fc ?a (snd (wire fc ?a ?T v)) v)) \<le> length b"
    using wire_elides [OF assms(3,4)] by blast
  let ?e1 = "eapp enc (wire fc ?a ?T v)"
  have e1: "Encode fc v enc = Inr (None, ?e1)"
    by (rule Encode_refines_wire_all(1) [OF assms(1,2)])
  have e2: "Encode fc v ?e1 = Inr (None, eapp ?e1 (wire fc ?a (snd (wire fc ?a ?T v)) v))"
    using Encode_refines_wire_all(1) [of ?e1 v fc] assms(1,2) by (simp del: Encode.simps)
  show ?thesis
    using e1 e2 b l by (simp add: eapp_def wapp_def del: Encode.simps)
qed

theorem Encode_elides_descriptor_witness:
  "\<forall>fc. \<exists>enc1 enc2 b1 b2. Encode fc animal enc64 = Inr (None, enc1) \<and> Encode fc animal enc1 = Inr (None, enc2) \<and>
     w_w (enc_w enc1) = w_w (enc_w enc64) @ td_bytes defaultTypeDescr @ b1 \<and>
     w_w (enc_w enc2) = w_w (enc_w enc1) @ b2 \<and> length b2 \<le> length b1"
  using Encode_elides_descriptor [OF hdr_Do_fresh(2), of animal] by (simp add: exported_names del: Encode.simps)



end
