(* ===== verification/Spec2Isabelle.thy ===== *)
theory Spec2Isabelle
  imports RBuffer Encoder
begin

text \<open>
  \<^bold>\<open>A verification model of the Boost text-archive codec \<open>txtser\<close>.\<close>

  The Go package \<open>txtser\<close> reads and writes the text archives of Boost's
  serialization library.  Its parts: an architecture profile (32- or 64-bit length
  fields); the primitive reader \<open>RBuffer\<close> (\<open>src/txtser/rbuffer.go\<close>) and the
  primitive writer \<open>WBuffer\<close>, which turn numbers and length-prefixed strings
  into space-delimited decimal tokens and keep a sticky error slot; the header
  protocol (signature and version header); the per-stream type-descriptor
  registry; and the value dispatcher \<open>Encoder.Encode\<close>
  (\<open>src/txtser/encoder.go\<close>) and its decoder counterpart, which walk a value and
  drive the reader or writer.  Only \<open>encoder.go\<close> and \<open>rbuffer.go\<close> are among
  the sources; the writer, the decoder, the header and type-descriptor records and
  the profile are modelled from the specification.

  \<^bold>\<open>Theories.\<close>
  \<^item> \<open>Prelude\<close>: byte and integer types, the error sentinels and panics, word-cast
    and list lemmas.
  \<^item> \<open>Strconv\<close>: Go's \<open>ParseUint\<close>, \<open>ParseInt\<close>, \<open>FormatUint\<close>, \<open>FormatInt\<close>
    (library code the reader and writer call), with the word-level overflow
    checks of the Go loop, its equivalence with the decimal value and the
    parse/format round trips.
  \<^item> \<open>Wire\<close>: the profile \<open>arch\<close>, the \<open>header\<close> and \<open>TypeDescr\<close> records, the
    signature.
  \<^item> \<open>Value\<close>: Go values as a datatype of reflection kinds (\<open>val\<close>) with their
    types (\<open>rtype\<close>, the registry key), pointer indirection, the builtin-kind
    test, and the float conversions as a parameter record \<open>float_codec\<close>.
  \<^item> \<open>RBuffer\<close>: the reader, one function per method of \<open>rbuffer.go\<close>, each from
    the buffer record to its result and the updated record (a sum with the
    panic where \<open>make\<close> can panic).  Its lemmas: the token reader, the sticky
    error, the numeric and string reads, the header read and the type-descriptor
    cache, with the claims on them.
  \<^item> \<open>WBuffer\<close>: the writer (from the specification).
  \<^item> \<open>Encoder\<close>: the encoder state, the one-time header write and \<open>Encode\<close>,
    mutually recursive with its loops over fields, elements and map entries.

  \<^bold>\<open>Modelling choices.\<close>  The byte source is a byte list read from the front
  (\<open>bytes.Reader\<close>); a sink either accepts every write or fails every write with
  one error (the tests' \<open>errWriter\<close>).  Go's \<open>int\<close> is 64 bits.  Map iteration
  order is the order of the entry list, and every theorem about maps is stated
  for every list.  Floating-point text conversion (strconv's \<open>FormatFloat\<close> and
  \<open>ParseFloat\<close>) is a parameter: the model fixes the token structure around it,
  not the IEEE-754 decimal conversion.  No loop of the code needs fuel: every
  loop runs over a finite list or the finite source, so every operation is a
  total function.

  \<^bold>\<open>Not modelled.\<close>  Opening and closing streams, logging, the tests' harness
  that compiles the C++ reader; panics other than those of \<open>make\<close>, nil pointer
  calls and unexported fields; the decimal float conversion itself.
\<close>

end
